(* ===== verification/Prelude.thy ===== *)
theory Prelude
  imports Complex_Main "HOL-Library.Multiset"
begin

text \<open>
  Shared vocabulary of the development: the run-time errors the script can raise, the
  result type of a JavaScript statement sequence that may throw (the state reached so
  far together with the uncaught error, since an exception in a browser event listener
  aborts the listener but keeps every mutation made before it), and the two
  \<open>Array.prototype\<close> methods the script uses on its state arrays,
  \<open>indexOf\<close> and \<open>splice\<close>, with the lemmas that relate them to HOL's list library.
\<close>

named_theorems js_simps "equations of the modelled JavaScript builtins"

section \<open>Run-time errors\<close>

text \<open>
  Every exception the script can raise is a \<open>TypeError\<close> from reading a property of
  \<open>null\<close> or \<open>undefined\<close>; the constructors name the value that was missing.
\<close>

datatype js_error =
    Null_template       \<comment> \<open>\<open>document.querySelector('#template-book')\<close> is null (reading innerHTML)\<close>
  | Null_books_list     \<comment> \<open>\<open>document.querySelector('.books-list')\<close> is null\<close>
  | Null_filters_form   \<comment> \<open>\<open>document.querySelector('.filters')\<close> is null\<close>
  | Null_offset_parent  \<comment> \<open>\<open>event.target.offsetParent\<close> is null (reading classList)\<close>
  | Undefined_book_data \<comment> \<open>\<open>dataSource.books.find(...)\<close> is undefined (reading details)\<close>

type_synonym 's js_result = "'s \<times> js_error option"

text \<open>Sequencing of two statements: the second runs only if the first did not throw.\<close>

definition js_then :: "'s js_result \<Rightarrow> ('s \<Rightarrow> 's js_result) \<Rightarrow> 's js_result" where
  "js_then r f = (case r of (s, None) \<Rightarrow> f s | (s, Some e) \<Rightarrow> (s, Some e))"

section \<open>\<open>Array.prototype.indexOf\<close>, \<open>splice\<close> and \<open>push\<close>\<close>

text \<open>\<open>indexOf\<close> with strict equality: the first index of the value, or \<open>-1\<close>.\<close>

fun index_of :: "'a list \<Rightarrow> 'a \<Rightarrow> int" where
  "index_of [] x = -1"
| "index_of (y # ys) x =
     (if y = x then 0 else (let i = index_of ys x in if i = -1 then -1 else i + 1))"

text \<open>
  \<open>arr.splice(start, deleteCount)\<close> as a statement (its return value, the removed
  elements, is never used by the script): a negative start counts from the end, a start
  past the end is clamped to the length.
\<close>

definition array_splice :: "'a list \<Rightarrow> int \<Rightarrow> nat \<Rightarrow> 'a list" where
  "array_splice xs start cnt =
     (let len = int (length xs);
          s = (if start < 0 then max (len + start) 0 else min start len)
      in take (nat s) xs @ drop (nat s + cnt) xs)"

abbreviation push :: "'a list \<Rightarrow> 'a \<Rightarrow> 'a list" where
  "push xs x \<equiv> xs @ [x]"

lemma js_then_simps [simp, js_simps]:
  "js_then (s, None) f = f s"
  "js_then (s, Some e) f = (s, Some e)"
  by (simp_all add: js_then_def)

lemma index_of_range: "index_of xs x = -1 \<or> (0 \<le> index_of xs x \<and> index_of xs x < int (length xs))"
  by (induction xs) (auto simp: Let_def)

lemma index_of_minus_one_iff [simp, js_simps]: "index_of xs x = -1 \<longleftrightarrow> x \<notin> set xs"
proof (induction xs)
  case Nil
  then show ?case by simp
next
  case (Cons y ys)
  have "index_of ys x \<noteq> -1 \<Longrightarrow> 0 \<le> index_of ys x"
    using index_of_range [of ys x] by auto
  with Cons show ?case by (auto simp: Let_def)
qed

lemma splice_nonneg:
  assumes "0 \<le> i"
  shows "array_splice xs i c = take (nat i) xs @ drop (nat i + c) xs"
proof -
  from assms have "nat (min i (int (length xs))) = min (nat i) (length xs)" by auto
  with assms show ?thesis by (auto simp: array_splice_def Let_def min_def)
qed

text \<open>The script's \<open>indexOf\<close> then \<open>splice(index, 1)\<close> removes the first occurrence.\<close>

lemma splice_index_of [simp, js_simps]:
  "x \<in> set xs \<Longrightarrow> array_splice xs (index_of xs x) (Suc 0) = remove1 x xs"
proof (induction xs)
  case Nil
  then show ?case by simp
next
  case (Cons y ys)
  show ?case
  proof (cases "y = x")
    case True
    then show ?thesis by (simp add: array_splice_def)
  next
    case False
    with Cons.prems have ys: "x \<in> set ys" by simp
    then have ne: "index_of ys x \<noteq> -1" by simp
    have nn: "0 \<le> index_of ys x" using index_of_range [of ys x] ne by auto
    then have "nat (index_of ys x + 1) = Suc (nat (index_of ys x))" by simp
    with False ne nn Cons.IH [OF ys] show ?thesis
      by (simp add: splice_nonneg Let_def)
  qed
qed

end
