(* ===== verification/Dom.thy ===== *)
theory Dom
  imports Prelude
begin

text \<open>
  The part of the page the script reads and writes, and the state of the
  \<open>BooksList\<close> instance (\<open>script.js\<close>). An element is a record of the attributes
  the script or the template touches; its \<open>classList\<close> is a \<open>DOMTokenList\<close>, an
  ordered set of class names, with \<open>add\<close>, \<open>remove\<close>, \<open>toggle\<close> and
  \<open>contains\<close> as the DOM standard defines them. The children of the
  \<open>.books-list\<close> container and the elements of the \<open>.filters\<close> form are explicit
  stores (lists indexed by position) so that the cached \<open>NodeList\<close>
  \<open>thisBook.dom.bookImage\<close> and the event targets refer to the same element objects
  the page shows, as they do in the browser.
\<close>

section \<open>The configuration objects \<open>select\<close> and \<open>classNames\<close>\<close>

record selectors =
  templateOf_bookItem :: string
  books_dataId :: string
  books_bookImg :: string
  booksClass_list :: string
  booksClass_bookImg :: string

definition select :: selectors where
  "select = \<lparr>templateOf_bookItem = ''#template-book'', books_dataId = ''data-id'',
     books_bookImg = ''book__image'', booksClass_list = ''.books-list'',
     booksClass_bookImg = ''.book__image''\<rparr>"

record class_names =
  favoriteBook :: string
  visible :: string
  filterBooks_sel :: string

definition classNames :: class_names where
  "classNames = \<lparr>favoriteBook = ''favorite'', visible = ''hidden'', filterBooks_sel = ''.filters''\<rparr>"

section \<open>Elements and \<open>DOMTokenList\<close>\<close>

text \<open>
  A rendered book element: its class list, its \<open>data-id\<close> attribute and the width and
  background of its rating bar, as the template writes them.
\<close>

record elem =
  classList :: "string list"
  data_id :: string
  bar_width :: real
  bar_bgc :: string

definition cl_contains :: "string list \<Rightarrow> string \<Rightarrow> bool" where
  "cl_contains cs c \<longleftrightarrow> c \<in> set cs"

definition cl_add :: "string list \<Rightarrow> string \<Rightarrow> string list" where
  "cl_add cs c = (if c \<in> set cs then cs else cs @ [c])"

definition cl_remove :: "string list \<Rightarrow> string \<Rightarrow> string list" where
  "cl_remove cs c = removeAll c cs"

definition cl_toggle :: "string list \<Rightarrow> string \<Rightarrow> string list" where
  "cl_toggle cs c = (if c \<in> set cs then removeAll c cs else cs @ [c])"

text \<open>A form control of the \<open>.filters\<close> form (an \<open>input\<close>, a \<open>label\<close>, ...).\<close>

record control =
  ctl_tagName :: string
  ctl_type :: string
  ctl_name :: string
  ctl_value :: string
  ctl_checked :: bool

section \<open>The page and the \<open>BooksList\<close> instance\<close>

text \<open>
  \<open>list_elems\<close> is \<open>None\<close> when the page has no \<open>.books-list\<close> element,
  \<open>form_elems\<close> is \<open>None\<close> when it has no \<open>.filters\<close> form, and
  \<open>template_present\<close> says whether \<open>#template-book\<close> exists. The fields
  \<open>favoriteBooks\<close>, \<open>filters\<close> and \<open>dom_bookImage\<close> are the instance's own; the
  two flags record which event listeners \<open>initActions\<close> managed to attach.
\<close>

record app =
  favoriteBooks :: "string list"
  filters :: "string list"
  list_elems :: "elem list option"
  template_present :: bool
  form_elems :: "control list option"
  dom_bookImage :: "nat list"
  dblclick_bound :: bool
  click_bound :: bool

section \<open>Lemmas on \<open>DOMTokenList\<close>\<close>

lemma cl_simps [simp, js_simps]:
  "cl_contains cs c \<longleftrightarrow> c \<in> set cs"
  "set (cl_add cs c) = insert c (set cs)"
  "set (cl_remove cs c) = set cs - {c}"
  "set (cl_toggle cs c) = (if c \<in> set cs then set cs - {c} else insert c (set cs))"
  by (auto simp: cl_contains_def cl_add_def cl_remove_def cl_toggle_def)

lemma classNames_simps [simp]:
  "favoriteBook classNames = ''favorite''" "visible classNames = ''hidden''"
  "filterBooks_sel classNames = ''.filters''"
  "books_bookImg select = ''book__image''" "books_dataId select = ''data-id''"
  by (simp_all add: classNames_def select_def)

end
