(* ===== verification/Rating.thy ===== *)
theory Rating
  imports Prelude
begin

text \<open>
  The rating bar of a book (\<open>script.js\<close>: the object \<open>ratingSettings\<close>, the method
  \<open>getRatingColor\<close> and the width computed in \<open>renderBooks\<close>). A JavaScript
  number is modelled as a \<open>real\<close>: the comparisons of \<open>getRatingColor\<close> are exact,
  and the width \<open>rating / 10 * 100\<close> is computed without the rounding of IEEE doubles.
  That abstraction is not exact for the width: in the browser \<open>(0.7 / 10) * 100\<close> is
  \<open>6.999999999999999\<close>, and 22 of the 101 ratings 0, 0.1, ..., 10 give a width that is
  not the decimal \<open>10 * rating\<close>. No theorem of the development states the value of
  the width; it only passes \<open>ratingWidth\<close> on to the template. The four colour
  tiers form a \<open>datatype\<close> ordered from worst to best.
\<close>

datatype rating_tier = Poor | Medium | Good | Excellent

primrec tier_rank :: "rating_tier \<Rightarrow> nat" where
  "tier_rank Poor = 0"
| "tier_rank Medium = 1"
| "tier_rank Good = 2"
| "tier_rank Excellent = 3"

lemma tier_rank_inj: "tier_rank t = tier_rank u \<longleftrightarrow> t = u"
  by (cases t; cases u) simp_all

instantiation rating_tier :: linorder
begin

definition less_eq_rating_tier :: "rating_tier \<Rightarrow> rating_tier \<Rightarrow> bool" where
  "less_eq_rating_tier t u \<longleftrightarrow> tier_rank t \<le> tier_rank u"

definition less_rating_tier :: "rating_tier \<Rightarrow> rating_tier \<Rightarrow> bool" where
  "less_rating_tier t u \<longleftrightarrow> tier_rank t < tier_rank u"

instance
  by standard (auto simp: less_eq_rating_tier_def less_rating_tier_def tier_rank_inj)

end

text \<open>The object \<open>ratingSettings\<close>: one CSS gradient per tier.\<close>

primrec ratingSettings :: "rating_tier \<Rightarrow> string" where
  "ratingSettings Poor = ''linear-gradient(to bottom, #fefcea 0%, #f1da36 100%)''"
| "ratingSettings Medium = ''linear-gradient(to bottom, #b4df5b 0%, #b4df5b 100%)''"
| "ratingSettings Good = ''linear-gradient(to bottom, #299a0b 0%, #299a0b 100%)''"
| "ratingSettings Excellent = ''linear-gradient(to bottom, #ff0084 0%, #ff0084 100%)''"

text \<open>
  \<open>getRatingColor\<close>: the branches in the source's order; the implicit
  \<open>return undefined\<close> at the end of the function is \<open>None\<close>.
\<close>

definition getRatingColor :: "real \<Rightarrow> string option" where
  "getRatingColor rating =
     (if rating < 6 then Some (ratingSettings Poor)
      else if rating > 6 \<and> rating \<le> 8 then Some (ratingSettings Medium)
      else if rating > 8 \<and> rating \<le> 9 then Some (ratingSettings Good)
      else if rating > 9 then Some (ratingSettings Excellent)
      else None)"

text \<open>\<open>const ratingWidth = (book.rating / 10) * 100\<close> in \<open>renderBooks\<close>.\<close>

definition ratingWidth :: "real \<Rightarrow> real" where
  "ratingWidth rating = (rating / 10) * 100"

section \<open>The specification's step function\<close>

text \<open>
  The specification's table read as a step function: the tier is the number of the
  thresholds 6, 8 and 9 that the rating exceeds.
\<close>

definition rating_thresholds :: "real list" where
  "rating_thresholds = [6, 8, 9]"

primrec tier_of_rank :: "nat \<Rightarrow> rating_tier" where
  "tier_of_rank 0 = Poor"
| "tier_of_rank (Suc n) =
     (case n of 0 \<Rightarrow> Medium | Suc 0 \<Rightarrow> Good | _ \<Rightarrow> Excellent)"

definition step_tier :: "real \<Rightarrow> rating_tier" where
  "step_tier r = tier_of_rank (length (filter (\<lambda>t. t < r) rating_thresholds))"

lemma ratingSettings_inj: "ratingSettings t = ratingSettings u \<longleftrightarrow> t = u"
  by (cases t; cases u) simp_all

lemma tier_rank_of_rank: "tier_rank (tier_of_rank n) = min n 3"
  by (cases n) (auto split: nat.splits)

lemma tier_of_rank_mono: "m \<le> n \<Longrightarrow> tier_of_rank m \<le> tier_of_rank n"
  by (simp add: less_eq_rating_tier_def tier_rank_of_rank)

lemma step_tier_count_mono:
  "r \<le> r' \<Longrightarrow> length (filter (\<lambda>t. t < r) rating_thresholds)
      \<le> length (filter (\<lambda>t. t < r') rating_thresholds)"
  by (auto simp: rating_thresholds_def)

lemma step_tier_mono: "r \<le> r' \<Longrightarrow> step_tier r \<le> step_tier r'"
  unfolding step_tier_def by (intro tier_of_rank_mono step_tier_count_mono)

section \<open>Properties\<close>

text \<open>
  C20: \<open>getRatingColor\<close> agrees with the specification's four-tier step function at
  every rating except 6, where it returns \<open>undefined\<close>.
\<close>

theorem getRatingColor_step_tier:
  "getRatingColor r = (if r = 6 then None else Some (ratingSettings (step_tier r)))"
  by (auto simp: getRatingColor_def step_tier_def rating_thresholds_def)

text \<open>
  C21: the colour tier never decreases as the rating grows: of two ratings that both get
  a colour, the higher one gets a tier at least as good.
\<close>

theorem getRatingColor_mono:
  assumes "r \<le> r'"
    and "getRatingColor r = Some (ratingSettings t)"
    and "getRatingColor r' = Some (ratingSettings t')"
  shows "t \<le> t'"
proof -
  have "r \<noteq> 6" "r' \<noteq> 6" using assms(2,3) by (auto simp: getRatingColor_def)
  with assms(2,3) have "t = step_tier r" "t' = step_tier r'"
    by (simp_all add: getRatingColor_step_tier ratingSettings_inj)
  with assms(1) show ?thesis by (simp add: step_tier_mono)
qed

theorem getRatingColor_mono_witness:
  "(7::real) \<le> 9.5 \<and> getRatingColor 7 = Some (ratingSettings Medium)
   \<and> getRatingColor 9.5 = Some (ratingSettings Excellent) \<and> Medium \<le> Excellent"
proof -
  have a: "getRatingColor 7 = Some (ratingSettings Medium)" by (simp add: getRatingColor_def)
  have b: "getRatingColor 9.5 = Some (ratingSettings Excellent)" by (simp add: getRatingColor_def)
  have "Medium \<le> Excellent" using getRatingColor_mono [OF _ a b] by simp
  with a b show ?thesis by simp
qed

end
