(* ===== verification/Js_Runtime.thy ===== *)
theory Js_Runtime
  imports Prelude
begin

text \<open>
  The two conversions between numbers and strings that carry a book's identifier
  through the page: Handlebars writes \<open>{{id}}\<close> into the \<open>data-id\<close> attribute with
  JavaScript's \<open>Number::toString\<close>, and \<open>filterBooks\<close> reads it back with the global
  \<open>parseInt\<close> (\<open>script.js\<close> line 91). Both are modelled on integers: \<open>toString\<close>
  as decimal digits with a leading minus sign (the form it has for every integer of
  magnitude below \<open>10^21\<close>), and \<open>parseInt\<close> with no radix argument as ECMAScript
  specifies it: leading white space skipped, an optional sign, an optional \<open>0x\<close>/\<open>0X\<close>
  prefix selecting radix 16, then the longest prefix of digits of the radix; \<open>NaN\<close>
  (no digit at all) is \<open>None\<close>, and \<open>-0\<close> is identified with \<open>0\<close>, as \<open>===\<close> does.
  Characters are bytes, so only the ASCII white space characters are modelled.
\<close>

section \<open>\<open>Number::toString\<close> on integers\<close>

fun nat_digits :: "nat \<Rightarrow> nat list" where
  "nat_digits n = (if n < 10 then [n] else nat_digits (n div 10) @ [n mod 10])"

declare nat_digits.simps [simp del]

definition digit_char :: "nat \<Rightarrow> char" where
  "digit_char d = char_of (48 + d)"

definition number_to_string :: "int \<Rightarrow> string" where
  "number_to_string i =
     (if i < 0 then CHR ''-'' # map digit_char (nat_digits (nat (- i)))
      else map digit_char (nat_digits (nat i)))"

section \<open>\<open>parseInt(string)\<close>\<close>

definition js_whitespace :: "char \<Rightarrow> bool" where
  "js_whitespace c \<longleftrightarrow> (of_char c :: nat) \<in> {9, 10, 11, 12, 13, 32}"

text \<open>The value of a character as a digit of radix \<open>r\<close>: \<open>0-9\<close>, then \<open>a-z\<close> or \<open>A-Z\<close>.\<close>

definition digit_value :: "nat \<Rightarrow> char \<Rightarrow> nat option" where
  "digit_value r c =
     (let n = (of_char c :: nat);
          v = (if 48 \<le> n \<and> n \<le> 57 then n - 48
               else if 97 \<le> n \<and> n \<le> 122 then n - 87
               else if 65 \<le> n \<and> n \<le> 90 then n - 55
               else 36)
      in if v < r then Some v else None)"

fun digits_prefix :: "nat \<Rightarrow> string \<Rightarrow> nat list" where
  "digits_prefix r [] = []"
| "digits_prefix r (c # cs) =
     (case digit_value r c of None \<Rightarrow> [] | Some v \<Rightarrow> v # digits_prefix r cs)"

definition digits_to_nat :: "nat \<Rightarrow> nat list \<Rightarrow> nat" where
  "digits_to_nat r ds = foldl (\<lambda>acc d. acc * r + d) 0 ds"

definition parseInt :: "string \<Rightarrow> int option" where
  "parseInt str =
     (let s1 = dropWhile js_whitespace str;
          sign = (if s1 \<noteq> [] \<and> hd s1 = CHR ''-'' then -1 else 1 :: int);
          s2 = (if s1 \<noteq> [] \<and> (hd s1 = CHR ''+'' \<or> hd s1 = CHR ''-'') then tl s1 else s1);
          (radix, s3) = (if take 2 s2 = ''0x'' \<or> take 2 s2 = ''0X'' then (16, drop 2 s2)
                          else (10, s2));
          z = digits_prefix radix s3
      in if z = [] then None else Some (sign * int (digits_to_nat radix z)))"

section \<open>Lemmas\<close>

lemma nat_digits_lt: "d \<in> set (nat_digits n) \<Longrightarrow> d < 10"
proof (induction n rule: nat_digits.induct)
  case (1 n)
  then show ?case
    by (cases "n < 10") (auto simp: nat_digits.simps [of n])
qed

lemma nat_digits_ne: "nat_digits n \<noteq> []"
  by (subst nat_digits.simps) simp

lemma digits_to_nat_snoc: "digits_to_nat r (ds @ [d]) = digits_to_nat r ds * r + d"
  by (simp add: digits_to_nat_def)

lemma digits_to_nat_nat_digits: "digits_to_nat 10 (nat_digits n) = n"
proof (induction n rule: nat_digits.induct)
  case (1 n)
  show ?case
  proof (cases "n < 10")
    case True
    then show ?thesis by (simp add: nat_digits.simps [of n] digits_to_nat_def)
  next
    case False
    with "1.IH" have "digits_to_nat 10 (nat_digits (n div 10)) = n div 10" by simp
    with False show ?thesis by (simp add: nat_digits.simps [of n] digits_to_nat_snoc)
  qed
qed

lemma of_char_digit_char: "d < 10 \<Longrightarrow> (of_char (digit_char d) :: nat) = 48 + d"
  by (simp add: digit_char_def)

lemma digit_value_digit_char: "d < 10 \<Longrightarrow> digit_value 10 (digit_char d) = Some d"
  by (simp add: digit_value_def of_char_digit_char Let_def)

lemma digits_prefix_digits:
  "\<forall>d \<in> set ds. d < 10 \<Longrightarrow> digits_prefix 10 (map digit_char ds) = ds"
  by (induction ds) (simp_all add: digit_value_digit_char)

lemma digit_char_not_ws: "d < 10 \<Longrightarrow> \<not> js_whitespace (digit_char d)"
  by (simp add: js_whitespace_def of_char_digit_char)

lemma digit_char_neq:
  "d < 10 \<Longrightarrow> digit_char d \<noteq> CHR ''-'' \<and> digit_char d \<noteq> CHR ''+'' \<and>
     digit_char d \<noteq> CHR ''x'' \<and> digit_char d \<noteq> CHR ''X''"
proof -
  assume "d < 10"
  then have "(of_char (digit_char d) :: nat) = 48 + d" by (rule of_char_digit_char)
  with \<open>d < 10\<close> show ?thesis by auto
qed

text \<open>Decimal digits of a natural number, read back by \<open>parseInt\<close> after any prefix.\<close>

lemma parse_digits:
  fixes n :: nat
  defines "s \<equiv> map digit_char (nat_digits n)"
  shows "take 2 s \<noteq> ''0x'' \<and> take 2 s \<noteq> ''0X'' \<and> digits_prefix 10 s = nat_digits n
         \<and> s \<noteq> [] \<and> dropWhile js_whitespace s = s \<and> hd s \<noteq> CHR ''-'' \<and> hd s \<noteq> CHR ''+''"
proof -
  have lt: "\<forall>d \<in> set (nat_digits n). d < 10" using nat_digits_lt by blast
  obtain d ds where nd: "nat_digits n = d # ds" using nat_digits_ne by (cases "nat_digits n") auto
  with lt have d: "d < 10" by simp
  have "take 2 s \<noteq> ''0x'' \<and> take 2 s \<noteq> ''0X''"
  proof (cases ds)
    case Nil
    then show ?thesis by (simp add: s_def nd)
  next
    case (Cons e es)
    with lt nd have "e < 10" by simp
    with Cons show ?thesis using digit_char_neq [of e] by (simp add: s_def nd)
  qed
  moreover have "digits_prefix 10 s = nat_digits n"
    using lt by (simp add: s_def digits_prefix_digits)
  ultimately show ?thesis
    using digit_char_not_ws [OF d] digit_char_neq [OF d] by (simp add: s_def nd)
qed

section \<open>Round trip\<close>

text \<open>
  An integer written by \<open>toString\<close> is read back unchanged by \<open>parseInt\<close>; hence
  \<open>toString\<close> is injective on integers.
\<close>

lemma parseInt_number_to_string [simp]: "parseInt (number_to_string i) = Some i"
proof (cases "i < 0")
  case True
  have ws: "\<not> js_whitespace (CHR ''-'')" by (simp add: js_whitespace_def)
  from True ws show ?thesis using parse_digits [of "nat (- i)"]
    by (simp add: parseInt_def number_to_string_def Let_def digits_to_nat_nat_digits nat_digits_ne)
next
  case False
  then show ?thesis using parse_digits [of "nat i"]
    by (simp add: parseInt_def number_to_string_def Let_def digits_to_nat_nat_digits nat_digits_ne)
qed

lemma number_to_string_inj [simp]: "number_to_string i = number_to_string j \<longleftrightarrow> i = j"
  by (metis option.inject parseInt_number_to_string)

end
