(* ===== verification/Render.thy ===== *)
theory Render
  imports Dom Rating Js_Runtime
begin

text \<open>
  Rendering (\<open>script.js\<close>: \<open>renderBooks\<close> and \<open>getElements\<close>). A book record of
  \<open>dataSource.books\<close> has an integer \<open>id\<close>, a numeric \<open>rating\<close> and an optional
  \<open>details\<close> object mapping tag names to booleans; its other fields (name, price,
  image) are read only by the template and are not modelled. \<open>renderBooks\<close> builds
  for each book the template context \<open>Object.assign({}, book, {ratingWidth,
  ratingBgc})\<close> and appends the template's output to the list container;
  \<open>getElements\<close> caches the \<open>.book__image\<close> elements. The Handlebars template
  \<open>#template-book\<close> lives in the page, not in \<open>src/\<close>: it is modelled from the
  specification as producing one \<open>.book__image\<close> element carrying \<open>data-id="{{id}}"\<close>
  and a rating bar of width \<open>{{ratingWidth}}\<close> and background \<open>{{ratingBgc}}\<close>
  (Handlebars prints \<open>undefined\<close> as the empty string).
\<close>

record book =
  book_id :: int
  rating :: real
  details :: "(string \<rightharpoonup> bool) option"

record template_ctx =
  ctx_book :: book
  ctx_ratingWidth :: real
  ctx_ratingBgc :: "string option"

text \<open>The body of the \<open>for\<close> loop of \<open>renderBooks\<close> up to the call of the template.\<close>

definition book_context :: "book \<Rightarrow> template_ctx" where
  "book_context b =
     (let w = ratingWidth (rating b); bgc = getRatingColor (rating b)
      in \<lparr>ctx_book = b, ctx_ratingWidth = w, ctx_ratingBgc = bgc\<rparr>)"

definition template_book :: "template_ctx \<Rightarrow> elem" where
  "template_book c =
     \<lparr>classList = [books_bookImg select], data_id = number_to_string (book_id (ctx_book c)),
      bar_width = ctx_ratingWidth c,
      bar_bgc = (case ctx_ratingBgc c of None \<Rightarrow> [] | Some s \<Rightarrow> s)\<rparr>"

text \<open>
  The loop \<open>for (const book of dataSource.books)\<close>: each iteration inserts one
  element at the end of the container (\<open>insertAdjacentHTML('beforeend', html)\<close>),
  which throws on the first iteration when the container is \<open>null\<close>.
\<close>

fun render_loop :: "elem list option \<Rightarrow> book list \<Rightarrow> elem list option js_result" where
  "render_loop L [] = (L, None)"
| "render_loop None (b # bs) = (None, Some Null_books_list)"
| "render_loop (Some es) (b # bs) =
     render_loop (Some (es @ [template_book (book_context b)])) bs"

text \<open>
  \<open>renderBooks\<close>: compiling the template reads \<open>innerHTML\<close> of
  \<open>#template-book\<close> before the loop, which throws when that element is missing.
\<close>

definition renderBooks :: "book list \<Rightarrow> app \<Rightarrow> app js_result" where
  "renderBooks ds s =
     (if \<not> template_present s then (s, Some Null_template)
      else (case render_loop (list_elems s) ds of (L, r) \<Rightarrow> (s\<lparr>list_elems := L\<rparr>, r)))"

text \<open>
  \<open>getElements\<close>: \<open>querySelectorAll('.book__image')\<close> in document order; the model
  assumes, as the page does, that no \<open>.book__image\<close> element lies outside the list.
\<close>

definition book_image_indices :: "elem list \<Rightarrow> nat list" where
  "book_image_indices es =
     filter (\<lambda>i. cl_contains (classList (es ! i)) (books_bookImg select)) [0..<length es]"

definition getElements :: "app \<Rightarrow> app" where
  "getElements s =
     s\<lparr>dom_bookImage := (case list_elems s of None \<Rightarrow> [] | Some es \<Rightarrow> book_image_indices es)\<rparr>"

section \<open>Lemmas\<close>

lemma render_loop_Some:
  "render_loop (Some es) ds = (Some (es @ map (\<lambda>b. template_book (book_context b)) ds), None)"
  by (induction ds arbitrary: es) simp_all

lemma render_loop_None: "render_loop None ds = (None, if ds = [] then None else Some Null_books_list)"
  by (cases ds) simp_all

lemma template_book_fields [simp]:
  "classList (template_book (book_context b)) = [''book__image'']"
  "data_id (template_book (book_context b)) = number_to_string (book_id b)"
  "bar_width (template_book (book_context b)) = ratingWidth (rating b)"
  "bar_bgc (template_book (book_context b)) = (case getRatingColor (rating b) of None \<Rightarrow> [] | Some c \<Rightarrow> c)"
  by (simp_all add: template_book_def book_context_def Let_def)

lemma book_image_indices_all:
  "\<forall>e \<in> set es. ''book__image'' \<in> set (classList e) \<Longrightarrow> book_image_indices es = [0..<length es]"
  by (simp add: book_image_indices_def filter_True)

section \<open>Properties of rendering\<close>

text \<open>
  C18: with the template present and the container found, \<open>renderBooks\<close> returns
  normally and appends exactly one element per book, in data-source order, each with
  the class \<open>book__image\<close>, the book's identifier as \<open>data-id\<close>, a rating bar
  ten times the rating wide and the rating's colour (empty when it has none).
\<close>

theorem renderBooks_appends:
  assumes "template_present s" and "list_elems s = Some es"
  shows "\<exists>es'. renderBooks ds s = (s\<lparr>list_elems := Some (es @ es')\<rparr>, None) \<and>
           length es' = length ds \<and>
           (\<forall>k < length ds. classList (es' ! k) = [''book__image''] \<and>
              data_id (es' ! k) = number_to_string (book_id (ds ! k)) \<and>
              bar_width (es' ! k) = ratingWidth (rating (ds ! k)) \<and>
              bar_bgc (es' ! k) = (case getRatingColor (rating (ds ! k)) of None \<Rightarrow> [] | Some c \<Rightarrow> c))"
proof -
  let ?es' = "map (\<lambda>b. template_book (book_context b)) ds"
  have "renderBooks ds s = (s\<lparr>list_elems := Some (es @ ?es')\<rparr>, None)"
    using assms by (simp add: renderBooks_def render_loop_Some)
  then show ?thesis by (intro exI [of _ ?es']) simp
qed

theorem renderBooks_appends_witness:
  "template_present (\<lparr>favoriteBooks = [], filters = [], list_elems = Some [], template_present = True,
      form_elems = None, dom_bookImage = [], dblclick_bound = False, click_bound = False\<rparr>) \<and>
   (\<exists>es'. renderBooks [\<lparr>book_id = 7, rating = 8, details = None\<rparr>]
       \<lparr>favoriteBooks = [], filters = [], list_elems = Some [], template_present = True,
        form_elems = None, dom_bookImage = [], dblclick_bound = False, click_bound = False\<rparr> =
     (\<lparr>favoriteBooks = [], filters = [], list_elems = Some es', template_present = True,
        form_elems = None, dom_bookImage = [], dblclick_bound = False, click_bound = False\<rparr>, None) \<and>
     length es' = 1)"
proof -
  let ?s = "\<lparr>favoriteBooks = [], filters = [], list_elems = Some [], template_present = True,
      form_elems = None, dom_bookImage = [], dblclick_bound = False, click_bound = False\<rparr>"
  have h: "template_present ?s" "list_elems ?s = Some []" by simp_all
  show ?thesis using renderBooks_appends [OF h, of "[\<lparr>book_id = 7, rating = 8, details = None\<rparr>]"] by auto
qed

end
