(* ===== verification/Visibility.thy ===== *)
theory Visibility
  imports Render
begin

text \<open>
  The visibility filter (\<open>script.js\<close>: \<open>filterBooks\<close>). For every cached
  \<open>.book__image\<close> element it reads \<open>data-id\<close>, parses it with \<open>parseInt\<close>, looks
  the book up in \<open>dataSource.books\<close> with \<open>find\<close> and strict equality of ids, and
  removes or adds the class \<open>classNames.visible\<close> (whose value is \<open>hidden\<close>). With a
  non-empty filter list a failed lookup dereferences \<open>undefined\<close>: the \<open>forEach\<close>
  stops at that element with a \<open>TypeError\<close> and the elements before it keep their
  new classes.
\<close>

text \<open>\<open>dataSource.books.find(item => item.id === bookId)\<close>; \<open>NaN\<close> equals no id.\<close>

definition lookup_book :: "book list \<Rightarrow> elem \<Rightarrow> book option" where
  "lookup_book ds e = find (\<lambda>item. Some (book_id item) = parseInt (data_id e)) ds"

text \<open>
  \<open>bookData.details && thisBook.filters.some(filter => bookData.details[filter])\<close>:
  a missing \<open>details\<close> object is falsy, a missing tag is \<open>undefined\<close>.
\<close>

definition book_matches :: "string list \<Rightarrow> book \<Rightarrow> bool" where
  "book_matches fs b =
     (case details b of None \<Rightarrow> False | Some d \<Rightarrow> list_ex (\<lambda>f. d f = Some True) fs)"

text \<open>The callback of \<open>books.forEach\<close> on one element.\<close>

definition filter_one :: "book list \<Rightarrow> string list \<Rightarrow> elem \<Rightarrow> elem js_result" where
  "filter_one ds fs e =
     (let bookData = lookup_book ds e
      in if fs = [] then (e\<lparr>classList := cl_remove (classList e) (visible classNames)\<rparr>, None)
         else (case bookData of
                 None \<Rightarrow> (e, Some Undefined_book_data)
               | Some b \<Rightarrow>
                   if book_matches fs b
                   then (e\<lparr>classList := cl_remove (classList e) (visible classNames)\<rparr>, None)
                   else (e\<lparr>classList := cl_add (classList e) (visible classNames)\<rparr>, None)))"

text \<open>\<open>books.forEach(...)\<close> over the cached indices, updating the shared elements.\<close>

fun forEach_filter :: "book list \<Rightarrow> string list \<Rightarrow> nat list \<Rightarrow> elem list \<Rightarrow> elem list js_result" where
  "forEach_filter ds fs [] es = (es, None)"
| "forEach_filter ds fs (i # ixs) es =
     (case filter_one ds fs (es ! i) of
        (e', None) \<Rightarrow> forEach_filter ds fs ixs (es[i := e'])
      | (e', Some err) \<Rightarrow> (es, Some err))"

definition filterBooks :: "book list \<Rightarrow> app \<Rightarrow> app js_result" where
  "filterBooks ds s =
     (case list_elems s of
        None \<Rightarrow> (s, None)
      | Some es \<Rightarrow>
          (case forEach_filter ds (filters s) (dom_bookImage s) es of
             (es', r) \<Rightarrow> (s\<lparr>list_elems := Some es'\<rparr>, r)))"

text \<open>
  What the specification promises (section 4.2): an element is shown exactly when the
  filter list is empty or its book has one of the filter tags set.
\<close>

definition shown :: "string list \<Rightarrow> book \<Rightarrow> bool" where
  "shown fs b \<longleftrightarrow> fs = [] \<or> (\<exists>d. details b = Some d \<and> (\<exists>f \<in> set fs. d f = Some True))"

definition resolves :: "book list \<Rightarrow> elem \<Rightarrow> bool" where
  "resolves ds e \<longleftrightarrow> lookup_book ds e \<noteq> None"

text \<open>The loop run without an exception: every cached element updated in turn.\<close>

definition filter_all :: "book list \<Rightarrow> string list \<Rightarrow> nat list \<Rightarrow> elem list \<Rightarrow> elem list" where
  "filter_all ds fs ixs es = fold (\<lambda>i es. es[i := fst (filter_one ds fs (es ! i))]) ixs es"

section \<open>A sample page\<close>

text \<open>
  Three books as the data source might hold them (one with the \<open>horror\<close> tag set, one
  with it cleared, one without \<open>details\<close>), rendered in order; used by the witnesses.
\<close>

definition sample_books :: "book list" where
  "sample_books =
     [\<lparr>book_id = 1, rating = 9.5, details = Some [''horror'' \<mapsto> True]\<rparr>,
      \<lparr>book_id = 2, rating = 6, details = Some [''horror'' \<mapsto> False, ''adults'' \<mapsto> True]\<rparr>,
      \<lparr>book_id = 3, rating = 4, details = None\<rparr>]"

definition sample_page :: "string list \<Rightarrow> app" where
  "sample_page fs =
     \<lparr>favoriteBooks = [], filters = fs,
      list_elems = Some (map (\<lambda>b. template_book (book_context b)) sample_books),
      template_present = True, form_elems = Some [], dom_bookImage = [0, 1, 2],
      dblclick_bound = True, click_bound = True\<rparr>"

section \<open>Lemmas\<close>

lemma book_matches_shown: "fs \<noteq> [] \<Longrightarrow> book_matches fs b \<longleftrightarrow> shown fs b"
  by (auto simp: book_matches_def shown_def list_ex_iff split: option.splits)

lemma filter_one_ok:
  assumes "lookup_book ds e = Some b"
  shows "filter_one ds fs e =
           (e\<lparr>classList := (if shown fs b then cl_remove (classList e) ''hidden''
                             else cl_add (classList e) ''hidden'')\<rparr>, None)"
  using assms by (auto simp: filter_one_def Let_def book_matches_shown, simp_all add: shown_def)

lemma filter_one_empty:
  "filter_one ds [] e = (e\<lparr>classList := cl_remove (classList e) ''hidden''\<rparr>, None)"
  by (simp add: filter_one_def)

lemma filter_one_error_iff:
  "snd (filter_one ds fs e) \<noteq> None \<longleftrightarrow> fs \<noteq> [] \<and> lookup_book ds e = None"
  by (simp add: filter_one_def Let_def split: option.splits)

lemma filter_one_frame [simp]:
  "data_id (fst (filter_one ds fs e)) = data_id e"
  "bar_width (fst (filter_one ds fs e)) = bar_width e"
  "bar_bgc (fst (filter_one ds fs e)) = bar_bgc e"
  by (simp_all add: filter_one_def Let_def split: option.splits)

lemma length_forEach_filter [simp]: "length (fst (forEach_filter ds fs ixs es)) = length es"
  by (induction ds fs ixs es rule: forEach_filter.induct) (auto split: prod.splits option.splits)

lemma filterBooks_frame [simp]:
  "favoriteBooks (fst (filterBooks ds s)) = favoriteBooks s"
  "filters (fst (filterBooks ds s)) = filters s"
  "form_elems (fst (filterBooks ds s)) = form_elems s"
  "template_present (fst (filterBooks ds s)) = template_present s"
  "dom_bookImage (fst (filterBooks ds s)) = dom_bookImage s"
  "dblclick_bound (fst (filterBooks ds s)) = dblclick_bound s"
  "click_bound (fst (filterBooks ds s)) = click_bound s"
  by (simp_all add: filterBooks_def split: option.splits prod.splits)

lemma lookup_book_cong: "data_id e = data_id e' \<Longrightarrow> lookup_book ds e = lookup_book ds e'"
  by (simp add: lookup_book_def)

lemma data_id_update:
  "data_id x = data_id (es ! j) \<Longrightarrow> data_id (es[j := x] ! i) = data_id (es ! i)"
  by (cases "i = j"; cases "j < length es") (simp_all add: nth_list_update list_update_beyond)

lemma resolves_update:
  "data_id x = data_id (es ! j) \<Longrightarrow> resolves ds (es[j := x] ! i) \<longleftrightarrow> resolves ds (es ! i)"
  unfolding resolves_def using lookup_book_cong [OF data_id_update] by metis

lemma resolves_update_filter:
  "resolves ds (es[j := fst (filter_one ds fs (es ! j))] ! i) \<longleftrightarrow> resolves ds (es ! i)"
  by (simp add: resolves_update)

lemma forEach_filter_ok:
  "\<forall>i \<in> set ixs. fs = [] \<or> resolves ds (es ! i) \<Longrightarrow>
   forEach_filter ds fs ixs es = (filter_all ds fs ixs es, None)"
proof (induction ixs arbitrary: es)
  case Nil
  then show ?case by (simp add: filter_all_def)
next
  case (Cons i ixs)
  let ?es' = "es[i := fst (filter_one ds fs (es ! i))]"
  have "snd (filter_one ds fs (es ! i)) = None"
    using Cons.prems filter_one_error_iff [of ds fs "es ! i"] by (auto simp: resolves_def)
  then have step: "forEach_filter ds fs (i # ixs) es = forEach_filter ds fs ixs ?es'"
    by (cases "filter_one ds fs (es ! i)") simp
  have "\<forall>j \<in> set ixs. fs = [] \<or> resolves ds (?es' ! j)"
    using Cons.prems by (auto simp: resolves_update_filter)
  with Cons.IH step show ?case by (simp add: filter_all_def)
qed

lemma forEach_filter_error_iff:
  "snd (forEach_filter ds fs ixs es) \<noteq> None \<longleftrightarrow> fs \<noteq> [] \<and> (\<exists>i \<in> set ixs. \<not> resolves ds (es ! i))"
proof (induction ixs arbitrary: es)
  case Nil
  then show ?case by simp
next
  case (Cons i ixs)
  obtain a r where fo: "filter_one ds fs (es ! i) = (a, r)" by fastforce
  have did: "data_id a = data_id (es ! i)"
    using filter_one_frame(1) [of ds fs "es ! i"] fo by simp
  show ?case
  proof (cases r)
    case None
    then have "fs = [] \<or> resolves ds (es ! i)"
      using filter_one_error_iff [of ds fs "es ! i"] fo by (auto simp: resolves_def)
    moreover have "forEach_filter ds fs (i # ixs) es = forEach_filter ds fs ixs (es[i := a])"
      using fo None by simp
    ultimately show ?thesis
      using Cons.IH [of "es[i := a]"] resolves_update [OF did] by auto
  next
    case (Some err)
    then have "fs \<noteq> [] \<and> \<not> resolves ds (es ! i)"
      using filter_one_error_iff [of ds fs "es ! i"] fo by (auto simp: resolves_def)
    with Some fo show ?thesis by auto
  qed
qed

lemma length_filter_all [simp]: "length (filter_all ds fs ixs es) = length es"
  by (induction ixs arbitrary: es) (simp_all add: filter_all_def)

lemma nth_filter_all:
  "distinct ixs \<Longrightarrow> j < length es \<Longrightarrow>
   filter_all ds fs ixs es ! j = (if j \<in> set ixs then fst (filter_one ds fs (es ! j)) else es ! j)"
proof (induction ixs arbitrary: es)
  case Nil
  then show ?case by (simp add: filter_all_def)
next
  case (Cons i ixs)
  let ?es' = "es[i := fst (filter_one ds fs (es ! i))]"
  have eq: "filter_all ds fs (i # ixs) es = filter_all ds fs ixs ?es'"
    by (simp add: filter_all_def)
  from Cons.prems have d: "distinct ixs" "i \<notin> set ixs" by simp_all
  have ih: "filter_all ds fs ixs ?es' ! j =
          (if j \<in> set ixs then fst (filter_one ds fs (?es' ! j)) else ?es' ! j)"
    using Cons.IH [OF d(1)] Cons.prems(2) by simp
  show ?case
  proof (cases "j = i")
    case True
    with d Cons.prems(2) eq ih show ?thesis by simp
  next
    case False
    with d Cons.prems(2) eq ih show ?thesis by simp
  qed
qed

lemma filterBooks_ok:
  assumes "list_elems s = Some es"
    and "\<forall>i \<in> set (dom_bookImage s). filters s = [] \<or> resolves ds (es ! i)"
  shows "filterBooks ds s = (s\<lparr>list_elems := Some (filter_all ds (filters s) (dom_bookImage s) es)\<rparr>, None)"
  using assms forEach_filter_ok [of "dom_bookImage s" "filters s" ds es] by (simp add: filterBooks_def)

text \<open>A rendered element's identifier finds its own book when the ids are distinct.\<close>

lemma lookup_book_rendered:
  assumes "distinct (map book_id ds)" and "k < length ds"
    and "data_id e = number_to_string (book_id (ds ! k))"
  shows "lookup_book ds e = Some (ds ! k)"
proof -
  have "\<And>j. j < k \<Longrightarrow> book_id (ds ! j) \<noteq> book_id (ds ! k)"
    using assms(1,2) by (auto simp: distinct_conv_nth)
  then show ?thesis using assms(2,3)
    by (auto simp: lookup_book_def find_Some_iff)
qed

text \<open>
  Whatever the identifiers, a rendered element's identifier finds the first book of the
  data source with that identifier (\<open>find\<close> stops at the first match).
\<close>

lemma lookup_book_rendered_any:
  assumes "k < length ds" and "data_id e = number_to_string (book_id (ds ! k))"
  shows "lookup_book ds e = find (\<lambda>b. book_id b = book_id (ds ! k)) ds \<and>
         find (\<lambda>b. book_id b = book_id (ds ! k)) ds \<noteq> None"
proof -
  have "ds ! k \<in> set ds" using assms(1) by simp
  then show ?thesis using assms(2) by (auto simp: lookup_book_def find_None_iff)
qed

section \<open>Properties of \<open>filterBooks\<close>\<close>

text \<open>
  C5: when every cached element resolves to a book, \<open>filterBooks\<close> returns without an
  exception, and afterwards each cached element carries the class \<open>hidden\<close> exactly
  when its book is not shown by the current filters (filters non-empty and none of them
  set in the book's details); its other classes and its identifier are unchanged, and
  elements outside the cache are untouched.
\<close>

theorem filterBooks_visibility:
  assumes "list_elems s = Some es"
    and "distinct (dom_bookImage s)"
    and "\<forall>i \<in> set (dom_bookImage s). i < length es \<and> lookup_book ds (es ! i) \<noteq> None"
  shows "\<exists>es'. filterBooks ds s = (s\<lparr>list_elems := Some es'\<rparr>, None) \<and> length es' = length es \<and>
    (\<forall>i < length es. if i \<in> set (dom_bookImage s)
       then (\<exists>b. lookup_book ds (es ! i) = Some b \<and>
               (''hidden'' \<in> set (classList (es' ! i)) \<longleftrightarrow> \<not> shown (filters s) b) \<and>
               set (classList (es' ! i)) - {''hidden''} = set (classList (es ! i)) - {''hidden''} \<and>
               data_id (es' ! i) = data_id (es ! i))
       else es' ! i = es ! i)"
proof -
  let ?es' = "filter_all ds (filters s) (dom_bookImage s) es"
  have ok: "forEach_filter ds (filters s) (dom_bookImage s) es = (?es', None)"
    using assms(3) by (intro forEach_filter_ok) (auto simp: resolves_def)
  have "\<forall>i < length es. if i \<in> set (dom_bookImage s)
       then (\<exists>b. lookup_book ds (es ! i) = Some b \<and>
               (''hidden'' \<in> set (classList (?es' ! i)) \<longleftrightarrow> \<not> shown (filters s) b) \<and>
               set (classList (?es' ! i)) - {''hidden''} = set (classList (es ! i)) - {''hidden''} \<and>
               data_id (?es' ! i) = data_id (es ! i))
       else ?es' ! i = es ! i"
  proof (intro allI impI)
    fix i assume i: "i < length es"
    show "if i \<in> set (dom_bookImage s)
       then (\<exists>b. lookup_book ds (es ! i) = Some b \<and>
               (''hidden'' \<in> set (classList (?es' ! i)) \<longleftrightarrow> \<not> shown (filters s) b) \<and>
               set (classList (?es' ! i)) - {''hidden''} = set (classList (es ! i)) - {''hidden''} \<and>
               data_id (?es' ! i) = data_id (es ! i))
       else ?es' ! i = es ! i"
    proof (cases "i \<in> set (dom_bookImage s)")
      case True
      with assms(3) obtain b where b: "lookup_book ds (es ! i) = Some b" by blast
      have "?es' ! i = fst (filter_one ds (filters s) (es ! i))"
        using nth_filter_all [OF assms(2) i] True by simp
      with True b show ?thesis by (auto simp: filter_one_ok)
    next
      case False
      then show ?thesis using nth_filter_all [OF assms(2) i] by simp
    qed
  qed
  with ok assms(1) show ?thesis by (auto simp: filterBooks_def)
qed

theorem filterBooks_visibility_witness:
  "distinct (dom_bookImage (sample_page [''horror''])) \<and>
   lookup_book sample_books (the (list_elems (sample_page [''horror''])) ! 0) = Some (sample_books ! 0) \<and>
   lookup_book sample_books (the (list_elems (sample_page [''horror''])) ! 1) = Some (sample_books ! 1) \<and>
   lookup_book sample_books (the (list_elems (sample_page [''horror''])) ! 2) = Some (sample_books ! 2) \<and>
   (\<exists>es'. filterBooks sample_books (sample_page [''horror'']) =
      (sample_page [''horror'']\<lparr>list_elems := Some es'\<rparr>, None) \<and>
      ''hidden'' \<notin> set (classList (es' ! 0)) \<and> ''hidden'' \<in> set (classList (es' ! 1)))"
proof -
  let ?s = "sample_page [''horror'']" and ?es = "the (list_elems (sample_page [''horror'']))"
  have h1: "list_elems ?s = Some ?es" by (simp add: sample_page_def)
  have h2: "distinct (dom_bookImage ?s)" by (simp add: sample_page_def)
  have lk: "lookup_book sample_books (?es ! 0) = Some (sample_books ! 0)"
    "lookup_book sample_books (?es ! 1) = Some (sample_books ! 1)"
    "lookup_book sample_books (?es ! 2) = Some (sample_books ! 2)"
    by (simp_all add: sample_page_def sample_books_def lookup_book_def)
  have h3: "\<forall>i \<in> set (dom_bookImage ?s). i < length ?es \<and> lookup_book sample_books (?es ! i) \<noteq> None"
    using lk by (simp add: sample_page_def sample_books_def)
  from filterBooks_visibility [OF h1 h2 h3] obtain es' where
    r: "filterBooks sample_books ?s = (?s\<lparr>list_elems := Some es'\<rparr>, None)" and
    p: "\<forall>i < length ?es. if i \<in> set (dom_bookImage ?s)
       then (\<exists>b. lookup_book sample_books (?es ! i) = Some b \<and>
               (''hidden'' \<in> set (classList (es' ! i)) \<longleftrightarrow> \<not> shown (filters ?s) b) \<and>
               set (classList (es' ! i)) - {''hidden''} = set (classList (?es ! i)) - {''hidden''} \<and>
               data_id (es' ! i) = data_id (?es ! i))
       else es' ! i = ?es ! i"
    by blast
  have len: "length ?es = 3" by (simp add: sample_page_def sample_books_def)
  have "''hidden'' \<notin> set (classList (es' ! 0))"
    using p [rule_format, of 0] lk(1) len
    by (simp add: sample_page_def sample_books_def shown_def book_matches_def)
  moreover have "''hidden'' \<in> set (classList (es' ! 1))"
    using p [rule_format, of 1] lk(2) len
    by (simp add: sample_page_def sample_books_def shown_def book_matches_def)
  ultimately show ?thesis using r h2 lk by blast
qed

text \<open>
  C6: \<open>filterBooks\<close> throws exactly when the filter list is non-empty and some cached
  element's \<open>data-id\<close> names no book of the data source.
\<close>

theorem filterBooks_error_iff:
  assumes "list_elems s = Some es"
  shows "snd (filterBooks ds s) \<noteq> None \<longleftrightarrow>
           filters s \<noteq> [] \<and> (\<exists>i \<in> set (dom_bookImage s). lookup_book ds (es ! i) = None)"
  using assms forEach_filter_error_iff [of ds "filters s" "dom_bookImage s" es]
  by (auto simp: filterBooks_def resolves_def split: prod.splits)

theorem filterBooks_error_iff_witness:
  "list_elems (sample_page [''horror'']) = Some (map (\<lambda>b. template_book (book_context b)) sample_books) \<and>
   (snd (filterBooks (tl sample_books) (sample_page [''horror''])) \<noteq> None)"
proof -
  have h: "list_elems (sample_page [''horror'']) = Some (map (\<lambda>b. template_book (book_context b)) sample_books)"
    by (simp add: sample_page_def)
  have "filters (sample_page [''horror'']) \<noteq> [] \<and>
        (\<exists>i \<in> set (dom_bookImage (sample_page [''horror''])).
           lookup_book (tl sample_books) (map (\<lambda>b. template_book (book_context b)) sample_books ! i) = None)"
    by (simp add: sample_page_def sample_books_def lookup_book_def)
  with filterBooks_error_iff [OF h, of "tl sample_books"] h show ?thesis by blast
qed

text \<open>
  C22: with no active filter every cached element is shown, whatever its book's
  details, and no lookup is made, so no exception is possible.
\<close>

theorem filterBooks_no_filters:
  assumes "filters s = []" and "list_elems s = Some es"
    and "distinct (dom_bookImage s)" and "\<forall>i \<in> set (dom_bookImage s). i < length es"
  shows "\<exists>es'. filterBooks ds s = (s\<lparr>list_elems := Some es'\<rparr>, None) \<and>
           (\<forall>i \<in> set (dom_bookImage s). ''hidden'' \<notin> set (classList (es' ! i)))"
proof -
  let ?es' = "filter_all ds [] (dom_bookImage s) es"
  have "forEach_filter ds [] (dom_bookImage s) es = (?es', None)"
    by (intro forEach_filter_ok) simp
  moreover have "\<forall>i \<in> set (dom_bookImage s). ''hidden'' \<notin> set (classList (?es' ! i))"
    using assms(3,4) by (simp add: nth_filter_all filter_one_empty)
  ultimately show ?thesis using assms(1,2) by (auto simp: filterBooks_def)
qed

theorem filterBooks_no_filters_witness:
  "\<exists>es'. filterBooks [] (sample_page []) = (sample_page []\<lparr>list_elems := Some es'\<rparr>, None) \<and>
     (\<forall>i \<in> set (dom_bookImage (sample_page [])). ''hidden'' \<notin> set (classList (es' ! i)))"
proof -
  have h: "filters (sample_page []) = []"
    "list_elems (sample_page []) = Some (map (\<lambda>b. template_book (book_context b)) sample_books)"
    "distinct (dom_bookImage (sample_page []))"
    "\<forall>i \<in> set (dom_bookImage (sample_page [])). i < length (map (\<lambda>b. template_book (book_context b)) sample_books)"
    by (simp_all add: sample_page_def sample_books_def)
  show ?thesis by (rule filterBooks_no_filters [OF h])
qed

text \<open>
  C19: the identifier written by the template is the one \<open>filterBooks\<close> reads back:
  with distinct book ids, the lookup of the element rendered for a book finds that
  very book (\<open>toString\<close>, then \<open>parseInt\<close> and \<open>find\<close> with \<open>===\<close>).
\<close>

theorem rendered_lookup_roundtrip:
  assumes "distinct (map book_id ds)" and "k < length ds"
  shows "lookup_book ds (template_book (book_context (ds ! k))) = Some (ds ! k)"
  using assms by (simp add: lookup_book_rendered)

theorem rendered_lookup_roundtrip_witness:
  "distinct (map book_id sample_books) \<and> 1 < length sample_books \<and>
   lookup_book sample_books (template_book (book_context (sample_books ! 1))) = Some (sample_books ! 1)"
proof -
  have h: "distinct (map book_id sample_books)" "1 < length sample_books"
    by (simp_all add: sample_books_def)
  show ?thesis using rendered_lookup_roundtrip [OF h] h by simp
qed

end
