(* ===== verification/Favorites.thy ===== *)
theory Favorites
  imports Visibility
begin

text \<open>
  The favourite toggle (\<open>script.js\<close>: the \<open>dblclick\<close> listener attached in
  \<open>initActions\<close>). The event's \<open>target.offsetParent\<close> is an input of the model:
  \<open>null\<close>, a child of the list container (by its index in the store), or an element
  outside the list, which carries no \<open>book__image\<close> class. On a book image the
  listener toggles the class \<open>favorite\<close> and the element's \<open>data-id\<close> in
  \<open>favoriteBooks\<close> (\<open>indexOf\<close>, then \<open>splice\<close> or \<open>push\<close>).
  \<open>event.preventDefault()\<close> has no effect on the modelled state.
\<close>

datatype offset_parent = Null_parent | List_child nat | Outside_list

definition toggle_favorite :: "string list \<Rightarrow> string \<Rightarrow> string list" where
  "toggle_favorite favs bookId =
     (let index = index_of favs bookId
      in if index \<noteq> -1 then array_splice favs index 1 else push favs bookId)"

definition dblclick_handler :: "offset_parent \<Rightarrow> app \<Rightarrow> app js_result" where
  "dblclick_handler p s =
     (case p of
        Null_parent \<Rightarrow> (s, Some Null_offset_parent)
      | Outside_list \<Rightarrow> (s, None)
      | List_child i \<Rightarrow>
          (case list_elems s of
             None \<Rightarrow> (s, None)
           | Some es \<Rightarrow>
               if i < length es \<and> cl_contains (classList (es ! i)) (books_bookImg select) then
                 (let bookImageContainer = es ! i;
                      toggled = bookImageContainer\<lparr>classList :=
                        cl_toggle (classList bookImageContainer) (favoriteBook classNames)\<rparr>;
                      bookId = data_id bookImageContainer
                  in (s\<lparr>list_elems := Some (es[i := toggled]),
                        favoriteBooks := toggle_favorite (favoriteBooks s) bookId\<rparr>, None))
               else (s, None)))"

text \<open>
  Agreement of the favourite list with the page: it holds no identifier twice, and it
  holds exactly the identifiers of the book images marked \<open>favorite\<close>.
\<close>

definition fav_coherent :: "string list \<Rightarrow> elem list \<Rightarrow> bool" where
  "fav_coherent favs es \<longleftrightarrow> distinct favs \<and>
     set favs = {data_id (es ! k) | k. k < length es \<and> ''book__image'' \<in> set (classList (es ! k))
                                       \<and> ''favorite'' \<in> set (classList (es ! k))}"

text \<open>Distinct book images carry distinct identifiers.\<close>

definition ids_unique :: "elem list \<Rightarrow> bool" where
  "ids_unique es \<longleftrightarrow> (\<forall>k < length es. \<forall>l < length es.
     ''book__image'' \<in> set (classList (es ! k)) \<longrightarrow> ''book__image'' \<in> set (classList (es ! l)) \<longrightarrow>
     data_id (es ! k) = data_id (es ! l) \<longrightarrow> k = l)"

section \<open>Lemmas\<close>

lemma toggle_favorite_eq:
  "toggle_favorite xs x = (if x \<in> set xs then remove1 x xs else xs @ [x])"
  by (simp add: toggle_favorite_def Let_def js_simps)

lemma toggle_favorite_distinct_set:
  assumes "distinct xs"
  shows "distinct (toggle_favorite xs x) \<and>
         set (toggle_favorite xs x) = (if x \<in> set xs then set xs - {x} else insert x (set xs))"
  using assms by (auto simp: toggle_favorite_eq)

lemma dblclick_handler_book_image:
  assumes "list_elems s = Some es" and "i < length es" and "''book__image'' \<in> set (classList (es ! i))"
  shows "dblclick_handler (List_child i) s =
     (s\<lparr>list_elems := Some (es[i := (es ! i)\<lparr>classList := cl_toggle (classList (es ! i)) ''favorite''\<rparr>]),
        favoriteBooks := toggle_favorite (favoriteBooks s) (data_id (es ! i))\<rparr>, None)"
  using assms by (simp add: dblclick_handler_def Let_def)

lemma dblclick_handler_other:
  assumes "list_elems s = Some es" and "\<not> (i < length es \<and> ''book__image'' \<in> set (classList (es ! i)))"
  shows "dblclick_handler (List_child i) s = (s, None)"
  using assms by (auto simp: dblclick_handler_def)

lemma fav_coherent_toggle:
  assumes coh: "fav_coherent favs es" and uniq: "ids_unique es"
    and i: "i < length es" and bi: "''book__image'' \<in> set (classList (es ! i))"
  shows "fav_coherent (toggle_favorite favs (data_id (es ! i)))
           (es[i := (es ! i)\<lparr>classList := cl_toggle (classList (es ! i)) ''favorite''\<rparr>])"
proof -
  let ?x = "data_id (es ! i)"
  let ?es' = "es[i := (es ! i)\<lparr>classList := cl_toggle (classList (es ! i)) ''favorite''\<rparr>]"
  have d: "distinct favs" using coh by (simp add: fav_coherent_def)
  have mem: "?x \<in> set favs \<longleftrightarrow> ''favorite'' \<in> set (classList (es ! i))"
    using coh uniq i bi unfolding fav_coherent_def ids_unique_def by blast
  have "{data_id (?es' ! k) | k. k < length ?es' \<and> ''book__image'' \<in> set (classList (?es' ! k))
           \<and> ''favorite'' \<in> set (classList (?es' ! k))}
        = (if ?x \<in> set favs then set favs - {?x} else insert ?x (set favs))"
    using coh uniq i bi mem unfolding fav_coherent_def ids_unique_def
    by (auto simp: nth_list_update split: if_splits)
  then show ?thesis using toggle_favorite_distinct_set [OF d, of ?x] by (simp add: fav_coherent_def)
qed

section \<open>Properties of the favourite toggle\<close>

text \<open>
  C7: a double click on a book image flips that element's \<open>favorite\<close> class and
  toggles the element's identifier in the favourite set (removed if present, added if
  absent), keeping the list free of duplicates; no other element changes, the filter
  list and the form stay as they are, and the listener does not throw.
\<close>

theorem dblclick_toggles_favorite:
  assumes "list_elems s = Some es" and "i < length es"
    and "''book__image'' \<in> set (classList (es ! i))" and "distinct (favoriteBooks s)"
    and "dblclick_handler (List_child i) s = (s', r)"
  shows "r = None \<and> distinct (favoriteBooks s') \<and>
    set (favoriteBooks s') = (if data_id (es ! i) \<in> set (favoriteBooks s)
       then set (favoriteBooks s) - {data_id (es ! i)} else insert (data_id (es ! i)) (set (favoriteBooks s))) \<and>
    filters s' = filters s \<and> form_elems s' = form_elems s \<and>
    (\<exists>es'. list_elems s' = Some es' \<and> length es' = length es \<and>
       (''favorite'' \<in> set (classList (es' ! i)) \<longleftrightarrow> ''favorite'' \<notin> set (classList (es ! i))) \<and>
       set (classList (es' ! i)) - {''favorite''} = set (classList (es ! i)) - {''favorite''} \<and>
       (\<forall>k < length es. k \<noteq> i \<longrightarrow> es' ! k = es ! k))"
  using assms toggle_favorite_distinct_set [OF assms(4), of "data_id (es ! i)"]
  by (auto simp: dblclick_handler_book_image)

theorem dblclick_toggles_favorite_witness:
  "dblclick_handler (List_child 0) (sample_page []) =
     (fst (dblclick_handler (List_child 0) (sample_page [])), None) \<and>
   favoriteBooks (fst (dblclick_handler (List_child 0) (sample_page []))) = [number_to_string 1]"
proof -
  have h: "list_elems (sample_page []) = Some (map (\<lambda>b. template_book (book_context b)) sample_books)"
    "0 < length (map (\<lambda>b. template_book (book_context b)) sample_books)"
    "''book__image'' \<in> set (classList (map (\<lambda>b. template_book (book_context b)) sample_books ! 0))"
    "distinct (favoriteBooks (sample_page []))"
    by (simp_all add: sample_page_def sample_books_def)
  have "snd (dblclick_handler (List_child 0) (sample_page [])) = None"
    using dblclick_toggles_favorite [OF h, of "fst (dblclick_handler (List_child 0) (sample_page []))"
        "snd (dblclick_handler (List_child 0) (sample_page []))"] by simp
  moreover have "favoriteBooks (fst (dblclick_handler (List_child 0) (sample_page []))) = [number_to_string 1]"
    unfolding dblclick_handler_book_image [OF h(1-3)]
    by (simp add: sample_page_def sample_books_def toggle_favorite_eq)
  ultimately show ?thesis by (metis prod.collapse)
qed

text \<open>
  C23: two double clicks on the same book image restore the favourite set: as a multiset
  whenever the list has no duplicate, and as the very same list when the identifier was
  not a favourite before.
\<close>

theorem toggle_favorite_twice:
  assumes "distinct xs"
  shows "mset (toggle_favorite (toggle_favorite xs x) x) = mset xs \<and>
         (x \<notin> set xs \<longrightarrow> toggle_favorite (toggle_favorite xs x) x = xs)"
  using assms by (auto simp: toggle_favorite_eq remove1_append)

theorem toggle_favorite_twice_witness:
  "distinct [''1'', ''2''] \<and> mset (toggle_favorite (toggle_favorite [''1'', ''2''] ''3'') ''3'') = mset [''1'', ''2''] \<and>
   toggle_favorite (toggle_favorite [''1'', ''2''] ''3'') ''3'' = [''1'', ''2'']"
  using toggle_favorite_twice [of "[''1'', ''2'']" "''3''"] by simp

end
