(* ===== verification/Filters_Form.thy ===== *)
theory Filters_Form
  imports Visibility
begin

text \<open>
  The filter toggle (\<open>script.js\<close>: the \<open>click\<close> listener on the \<open>.filters\<close> form,
  attached in \<open>initActions\<close>). The event target is a control of the form, given by
  its index in the store. Before a click listener runs, the browser's activation
  behaviour has already flipped the \<open>checked\<close> state of a checkbox (modelled from the
  DOM standard as \<open>activate\<close>). The listener acts only on an \<open>INPUT\<close> of type
  \<open>checkbox\<close> named \<open>filter\<close>: a checked box pushes its value onto \<open>filters\<close>
  without looking for it first, an unchecked one removes the first occurrence of its
  value if there is one; then \<open>filterBooks\<close> runs.
\<close>

definition is_filter_checkbox :: "control \<Rightarrow> bool" where
  "is_filter_checkbox c \<longleftrightarrow>
     ctl_tagName c = ''INPUT'' \<and> ctl_type c = ''checkbox'' \<and> ctl_name c = ''filter''"

definition update_filters :: "string list \<Rightarrow> control \<Rightarrow> string list" where
  "update_filters fs clickedElement =
     (if ctl_checked clickedElement then push fs (ctl_value clickedElement)
      else (let index = index_of fs (ctl_value clickedElement)
            in if index \<noteq> -1 then array_splice fs index 1 else fs))"

definition click_handler :: "book list \<Rightarrow> nat \<Rightarrow> app \<Rightarrow> app js_result" where
  "click_handler ds i s =
     (case form_elems s of
        None \<Rightarrow> (s, None)
      | Some cs \<Rightarrow>
          if i < length cs \<and> is_filter_checkbox (cs ! i)
          then filterBooks ds (s\<lparr>filters := update_filters (filters s) (cs ! i)\<rparr>)
          else (s, None))"

text \<open>The activation behaviour of a click on a control: a checkbox toggles.\<close>

definition activate :: "control \<Rightarrow> control" where
  "activate c =
     (if ctl_tagName c = ''INPUT'' \<and> ctl_type c = ''checkbox''
      then c\<lparr>ctl_checked := \<not> ctl_checked c\<rparr> else c)"

definition activate_at :: "nat \<Rightarrow> control list \<Rightarrow> control list" where
  "activate_at i cs = (if i < length cs then cs[i := activate (cs ! i)] else cs)"

text \<open>The values of the checked filter checkboxes, in form order.\<close>

definition checked_filters :: "control list \<Rightarrow> string list" where
  "checked_filters cs = map ctl_value (filter (\<lambda>c. is_filter_checkbox c \<and> ctl_checked c) cs)"

text \<open>A filter checkbox of the page's form, for the witnesses.\<close>

definition filter_box :: "string \<Rightarrow> bool \<Rightarrow> control" where
  "filter_box v b = \<lparr>ctl_tagName = ''INPUT'', ctl_type = ''checkbox'', ctl_name = ''filter'',
                      ctl_value = v, ctl_checked = b\<rparr>"

section \<open>Lemmas\<close>

lemma update_filters_eq:
  "update_filters fs c =
     (if ctl_checked c then fs @ [ctl_value c] else remove1 (ctl_value c) fs)"
  by (simp add: update_filters_def Let_def remove1_idem js_simps)

lemma checked_filters_update:
  assumes "i < length cs"
  shows "mset (checked_filters (cs[i := c])) =
           mset (checked_filters cs)
           - (if is_filter_checkbox (cs ! i) \<and> ctl_checked (cs ! i) then {#ctl_value (cs ! i)#} else {#})
           + (if is_filter_checkbox c \<and> ctl_checked c then {#ctl_value c#} else {#})"
proof -
  let ?f = "\<lambda>c. if is_filter_checkbox c \<and> ctl_checked c then {#ctl_value c#} else {#}"
  let ?M = "mset (checked_filters (take i cs)) + mset (checked_filters (drop (Suc i) cs))"
  have split: "\<And>x. mset (checked_filters (take i cs @ x # drop (Suc i) cs)) = ?M + ?f x"
    by (simp add: checked_filters_def)
  have "cs = take i cs @ cs ! i # drop (Suc i) cs" using assms by (simp add: id_take_nth_drop)
  then have a: "mset (checked_filters cs) = ?M + ?f (cs ! i)" using split by metis
  have "cs[i := c] = take i cs @ c # drop (Suc i) cs" using assms by (simp add: upd_conv_take_nth_drop)
  then have b: "mset (checked_filters (cs[i := c])) = ?M + ?f c" using split by metis
  show ?thesis unfolding a b by simp
qed

lemma activate_filter_checkbox [simp]:
  "is_filter_checkbox (activate c) \<longleftrightarrow> is_filter_checkbox c"
  "ctl_value (activate c) = ctl_value c"
  "is_filter_checkbox c \<Longrightarrow> ctl_checked (activate c) \<longleftrightarrow> \<not> ctl_checked c"
  by (simp_all add: activate_def is_filter_checkbox_def)

lemma activate_at_nth:
  "i < length cs \<Longrightarrow> activate_at i cs ! i = activate (cs ! i)"
  by (simp add: activate_at_def)

lemma checked_filters_activate_other:
  "\<not> is_filter_checkbox (cs ! i) \<Longrightarrow>
   mset (checked_filters (activate_at i cs)) = mset (checked_filters cs)"
  by (cases "i < length cs") (simp_all add: activate_at_def checked_filters_update)

lemma update_filters_activate:
  assumes "mset fs = mset (checked_filters cs)" and "i < length cs" and "is_filter_checkbox (cs ! i)"
  shows "mset (update_filters fs (activate (cs ! i))) = mset (checked_filters (activate_at i cs))"
proof (cases "ctl_checked (cs ! i)")
  case True
  then have "ctl_value (cs ! i) \<in># mset (checked_filters cs)"
    using assms(2,3) by (auto simp: checked_filters_def)
  then have "ctl_value (cs ! i) \<in> set fs" using assms(1) by (metis set_mset_mset)
  with True assms show ?thesis
    by (simp add: update_filters_eq activate_at_def checked_filters_update)
next
  case False
  with assms show ?thesis
    by (simp add: update_filters_eq activate_at_def checked_filters_update)
qed

lemma click_handler_frame:
  assumes "click_handler ds i s = (s', r)"
  shows "form_elems s' = form_elems s \<and> favoriteBooks s' = favoriteBooks s \<and>
         dom_bookImage s' = dom_bookImage s \<and> dblclick_bound s' = dblclick_bound s \<and>
         click_bound s' = click_bound s \<and> template_present s' = template_present s"
proof -
  have "s' = fst (click_handler ds i s)" using assms by simp
  then show ?thesis by (simp add: click_handler_def split: option.splits)
qed

lemma click_handler_filters:
  assumes "form_elems s = Some cs" and "click_handler ds i s = (s', r)"
  shows "filters s' = (if i < length cs \<and> is_filter_checkbox (cs ! i)
                       then update_filters (filters s) (cs ! i) else filters s)"
proof -
  have "s' = fst (click_handler ds i s)" using assms(2) by simp
  then show ?thesis using assms(1) by (simp add: click_handler_def)
qed

lemma click_filters_sync:
  assumes "form_elems s = Some cs" and "mset (filters s) = mset (checked_filters cs)"
    and "click_handler ds i (s\<lparr>form_elems := Some (activate_at i cs)\<rparr>) = (s', r)"
  shows "form_elems s' = Some (activate_at i cs) \<and>
         mset (filters s') = mset (checked_filters (activate_at i cs))"
proof -
  let ?s = "s\<lparr>form_elems := Some (activate_at i cs)\<rparr>"
  have len: "length (activate_at i cs) = length cs" by (simp add: activate_at_def)
  have f: "filters s' = (if i < length cs \<and> is_filter_checkbox (activate_at i cs ! i)
                         then update_filters (filters s) (activate_at i cs ! i) else filters s)"
    using click_handler_filters [of ?s "activate_at i cs" ds i s' r] assms(3) len by simp
  have "mset (filters s') = mset (checked_filters (activate_at i cs))"
  proof (cases "i < length cs \<and> is_filter_checkbox (cs ! i)")
    case True
    then show ?thesis using f update_filters_activate [OF assms(2)] by (simp add: activate_at_nth)
  next
    case False
    then have "\<not> (i < length cs \<and> is_filter_checkbox (activate_at i cs ! i))"
      by (auto simp: activate_at_nth)
    then have "filters s' = filters s" using f by auto
    moreover have "mset (checked_filters (activate_at i cs)) = mset (checked_filters cs)"
    proof (cases "i < length cs")
      case True
      with False show ?thesis by (simp add: checked_filters_activate_other)
    next
      case False
      then show ?thesis by (simp add: activate_at_def)
    qed
    ultimately show ?thesis using assms(2) by simp
  qed
  moreover have "form_elems s' = Some (activate_at i cs)"
    using click_handler_frame [OF assms(3)] by simp
  ultimately show ?thesis by simp
qed

section \<open>Properties of the filter toggle\<close>

text \<open>
  C15: the filter list stays in step with the form: if, before a click, it holds the
  values of the checked filter checkboxes (as a multiset), then after the browser has
  toggled the clicked box and the listener has run, it holds the values of the boxes
  checked now. Clicks on anything but a filter checkbox leave it alone.
\<close>

theorem click_keeps_filters_in_sync:
  assumes "form_elems s = Some cs" and "mset (filters s) = mset (checked_filters cs)"
    and "click_handler ds i (s\<lparr>form_elems := Some (activate_at i cs)\<rparr>) = (s', r)"
  shows "form_elems s' = Some (activate_at i cs) \<and>
         mset (filters s') = mset (checked_filters (activate_at i cs))"
  using assms by (rule click_filters_sync)

theorem click_keeps_filters_in_sync_witness:
  "mset (filters (fst (click_handler [] 0 ((sample_page [])\<lparr>form_elems :=
       Some (activate_at 0 [filter_box ''horror'' False])\<rparr>))))
     = mset (checked_filters (activate_at 0 [filter_box ''horror'' False])) \<and>
   checked_filters (activate_at 0 [filter_box ''horror'' False]) = [''horror'']"
proof -
  let ?s = "(sample_page [])\<lparr>form_elems := Some [filter_box ''horror'' False]\<rparr>"
  have h1: "form_elems ?s = Some [filter_box ''horror'' False]" by simp
  have h2: "mset (filters ?s) = mset (checked_filters [filter_box ''horror'' False])"
    by (simp add: sample_page_def checked_filters_def filter_box_def)
  have "?s\<lparr>form_elems := Some (activate_at 0 [filter_box ''horror'' False])\<rparr> =
        (sample_page [])\<lparr>form_elems := Some (activate_at 0 [filter_box ''horror'' False])\<rparr>"
    by simp
  then have "mset (filters (fst (click_handler [] 0 ((sample_page [])\<lparr>form_elems :=
       Some (activate_at 0 [filter_box ''horror'' False])\<rparr>))))
     = mset (checked_filters (activate_at 0 [filter_box ''horror'' False]))"
    using click_keeps_filters_in_sync [OF h1 h2, of "[]" 0] by (metis prod.collapse)
  moreover have "checked_filters (activate_at 0 [filter_box ''horror'' False]) = [''horror'']"
    by (simp add: checked_filters_def activate_at_def activate_def filter_box_def is_filter_checkbox_def)
  ultimately show ?thesis by simp
qed

text \<open>
  C24: toggling the same filter checkbox twice restores the filter list: exactly when
  the box started unchecked with its value absent, and as a multiset when it started
  checked with its value present (the value then moves to the end of the list).
\<close>

theorem filter_toggle_twice:
  assumes "is_filter_checkbox c"
  shows "(\<not> ctl_checked c \<and> ctl_value c \<notin> set fs \<longrightarrow>
            update_filters (update_filters fs (activate c)) (activate (activate c)) = fs) \<and>
         (ctl_checked c \<and> ctl_value c \<in> set fs \<longrightarrow>
            mset (update_filters (update_filters fs (activate c)) (activate (activate c))) = mset fs)"
  using assms by (auto simp: update_filters_eq remove1_append)

theorem filter_toggle_twice_witness:
  "update_filters (update_filters [''adults''] (activate (filter_box ''horror'' False)))
     (activate (activate (filter_box ''horror'' False))) = [''adults''] \<and>
   mset (update_filters (update_filters [''horror'', ''adults''] (activate (filter_box ''horror'' True)))
     (activate (activate (filter_box ''horror'' True)))) = mset [''horror'', ''adults'']"
proof -
  have c: "is_filter_checkbox (filter_box ''horror'' False)" "is_filter_checkbox (filter_box ''horror'' True)"
    by (simp_all add: filter_box_def is_filter_checkbox_def)
  show ?thesis
    using filter_toggle_twice [OF c(1), of "[''adults'']"] filter_toggle_twice [OF c(2), of "[''horror'', ''adults'']"]
    by (simp add: filter_box_def)
qed

end
