(* ===== verification/BooksList.thy ===== *)
theory BooksList
  imports Favorites Filters_Form
begin

text \<open>
  The \<open>BooksList\<close> object as a whole (\<open>script.js\<close>: the constructor, \<open>initActions\<close>
  and the script's last statements): construction runs \<open>renderBooks\<close>,
  \<open>getElements\<close> and \<open>initActions\<close> in order, stopping at the first exception;
  \<open>initActions\<close> attaches the \<open>dblclick\<close> listener to the list container and then the
  \<open>click\<close> listener to the \<open>.filters\<close> form, each only if the element exists (a
  missing one is a \<open>TypeError\<close> that leaves the listeners attached so far in place).
  After construction the page runs one user event at a time: a double click dispatches
  to the favourite listener when it is attached, a click on a form control first toggles
  a checkbox (the browser's activation behaviour) and then dispatches to the filter
  listener when it is attached. An exception thrown by a listener is reported and the
  page goes on with the state reached, so the reachable states are those of any
  sequence of events after construction.
\<close>

definition initActions :: "app \<Rightarrow> app js_result" where
  "initActions s =
     (case list_elems s of
        None \<Rightarrow> (s, Some Null_books_list)
      | Some _ \<Rightarrow>
          (let s1 = s\<lparr>dblclick_bound := True\<rparr>
           in case form_elems s1 of
                None \<Rightarrow> (s1, Some Null_filters_form)
              | Some _ \<Rightarrow> (s1\<lparr>click_bound := True\<rparr>, None)))"

definition new_BooksList :: "book list \<Rightarrow> app \<Rightarrow> app js_result" where
  "new_BooksList ds page =
     js_then (renderBooks ds (page\<lparr>favoriteBooks := [], filters := []\<rparr>))
       (\<lambda>s. initActions (getElements s))"

datatype event = DblClick offset_parent | Click nat

fun dispatch :: "book list \<Rightarrow> app \<Rightarrow> event \<Rightarrow> app js_result" where
  "dispatch ds s (DblClick p) = (if dblclick_bound s then dblclick_handler p s else (s, None))"
| "dispatch ds s (Click i) =
     (let s1 = s\<lparr>form_elems := map_option (activate_at i) (form_elems s)\<rparr>
      in if click_bound s then click_handler ds i s1 else (s1, None))"

text \<open>A run of events after construction, with the exceptions reported on the way.\<close>

fun run :: "book list \<Rightarrow> app \<Rightarrow> event list \<Rightarrow> app \<times> js_error list" where
  "run ds s [] = (s, [])"
| "run ds s (e # evs) =
     (case dispatch ds s e of
        (s', r) \<Rightarrow> (case run ds s' evs of
                       (t, errs) \<Rightarrow> (t, (case r of None \<Rightarrow> errs | Some err \<Rightarrow> err # errs))))"

inductive reachable :: "book list \<Rightarrow> app \<Rightarrow> app \<Rightarrow> bool" for ds page where
  init: "reachable ds page (fst (new_BooksList ds page))"
| step: "reachable ds page s \<Longrightarrow> reachable ds page (fst (dispatch ds s e))"

text \<open>
  The page as served: the template and the empty list container exist, and the filter
  form exists with no filter box checked.
\<close>

definition page_ok :: "app \<Rightarrow> bool" where
  "page_ok page \<longleftrightarrow> template_present page \<and> list_elems page = Some [] \<and>
     (case form_elems page of None \<Rightarrow> False | Some cs \<Rightarrow> checked_filters cs = [])"

text \<open>
  The invariant of the running page: one rendered element per book, in order, with the
  book's identifier and the class \<open>book__image\<close>; the cache lists them all; an element
  is hidden exactly when its book is not shown by the current filters; the favourite
  list agrees with the \<open>favorite\<close> classes; the filter list holds the values of the
  checked filter boxes; both listeners are attached.
\<close>

definition app_inv :: "book list \<Rightarrow> app \<Rightarrow> bool" where
  "app_inv ds s \<longleftrightarrow>
     (case (list_elems s, form_elems s) of
        (Some es, Some cs) \<Rightarrow>
           length es = length ds \<and> dom_bookImage s = [0..<length es] \<and>
           (\<forall>k < length es. data_id (es ! k) = number_to_string (book_id (ds ! k)) \<and>
              ''book__image'' \<in> set (classList (es ! k)) \<and>
              (''hidden'' \<in> set (classList (es ! k)) \<longleftrightarrow> \<not> shown (filters s) (ds ! k))) \<and>
           fav_coherent (favoriteBooks s) es \<and>
           mset (filters s) = mset (checked_filters cs) \<and>
           dblclick_bound s \<and> click_bound s
      | _ \<Rightarrow> False)"

text \<open>
  The shape every page keeps after construction, whatever the data source and whatever
  the form showed when the page was loaded: one rendered element per book with the
  book's identifier, the cache listing them all, both listeners attached.
\<close>

definition page_shape :: "book list \<Rightarrow> app \<Rightarrow> bool" where
  "page_shape ds s \<longleftrightarrow>
     (case (list_elems s, form_elems s) of
        (Some es, Some cs) \<Rightarrow>
           length es = length ds \<and> dom_bookImage s = [0..<length es] \<and>
           (\<forall>k < length es. data_id (es ! k) = number_to_string (book_id (ds ! k))) \<and>
           dblclick_bound s \<and> click_bound s
      | _ \<Rightarrow> False)"

text \<open>The page as \<open>index.html\<close> serves it, with two filter boxes, for the witnesses.\<close>

definition served_page :: app where
  "served_page =
     \<lparr>favoriteBooks = [], filters = [], list_elems = Some [], template_present = True,
      form_elems = Some [filter_box ''horror'' False, filter_box ''adults'' False],
      dom_bookImage = [], dblclick_bound = False, click_bound = False\<rparr>"

section \<open>Lemmas\<close>

lemma initActions_eq:
  "initActions s =
     (if list_elems s = None then (s, Some Null_books_list)
      else if form_elems s = None then (s\<lparr>dblclick_bound := True\<rparr>, Some Null_filters_form)
      else (s\<lparr>dblclick_bound := True, click_bound := True\<rparr>, None))"
  by (auto simp: initActions_def split: option.splits)

lemma new_BooksList_loaded:
  assumes "template_present page" and "list_elems page = Some []" and "form_elems page \<noteq> None"
  shows "new_BooksList ds page =
     (page\<lparr>favoriteBooks := [], filters := [],
           list_elems := Some (map (\<lambda>b. template_book (book_context b)) ds),
           dom_bookImage := [0..<length ds], dblclick_bound := True, click_bound := True\<rparr>, None)"
proof -
  have "book_image_indices (map (\<lambda>b. template_book (book_context b)) ds) = [0..<length ds]"
    by (simp add: book_image_indices_all)
  with assms show ?thesis
    by (auto simp: new_BooksList_def renderBooks_def render_loop_Some getElements_def initActions_eq)
qed

lemma new_BooksList_page_ok:
  assumes "page_ok page"
  shows "new_BooksList ds page =
     (page\<lparr>favoriteBooks := [], filters := [],
           list_elems := Some (map (\<lambda>b. template_book (book_context b)) ds),
           dom_bookImage := [0..<length ds], dblclick_bound := True, click_bound := True\<rparr>, None)"
  using assms by (intro new_BooksList_loaded) (auto simp: page_ok_def split: option.splits)

lemma app_inv_iff:
  "app_inv ds s \<longleftrightarrow> (\<exists>es cs. list_elems s = Some es \<and> form_elems s = Some cs \<and>
     length es = length ds \<and> dom_bookImage s = [0..<length es] \<and>
     (\<forall>k < length es. data_id (es ! k) = number_to_string (book_id (ds ! k)) \<and>
        ''book__image'' \<in> set (classList (es ! k)) \<and>
        (''hidden'' \<in> set (classList (es ! k)) \<longleftrightarrow> \<not> shown (filters s) (ds ! k))) \<and>
     fav_coherent (favoriteBooks s) es \<and> mset (filters s) = mset (checked_filters cs) \<and>
     dblclick_bound s \<and> click_bound s)"
  by (auto simp: app_inv_def split: option.splits)

lemma ids_unique_rendered:
  assumes "distinct (map book_id ds)" and "length es = length ds"
    and "\<And>k. k < length es \<Longrightarrow> data_id (es ! k) = number_to_string (book_id (ds ! k))"
  shows "ids_unique es"
  using assms by (auto simp: ids_unique_def distinct_conv_nth)

text \<open>The favourite agreement depends only on identifiers and the two classes.\<close>

lemma fav_coherent_cong:
  assumes "length es' = length es"
    and "\<And>k. k < length es \<Longrightarrow> data_id (es' ! k) = data_id (es ! k)"
    and "\<And>k. k < length es \<Longrightarrow> ''book__image'' \<in> set (classList (es' ! k)) \<longleftrightarrow> ''book__image'' \<in> set (classList (es ! k))"
    and "\<And>k. k < length es \<Longrightarrow> ''favorite'' \<in> set (classList (es' ! k)) \<longleftrightarrow> ''favorite'' \<in> set (classList (es ! k))"
  shows "fav_coherent favs es' \<longleftrightarrow> fav_coherent favs es"
proof -
  have "{data_id (es' ! k) | k. k < length es' \<and> ''book__image'' \<in> set (classList (es' ! k))
           \<and> ''favorite'' \<in> set (classList (es' ! k))} =
        {data_id (es ! k) | k. k < length es \<and> ''book__image'' \<in> set (classList (es ! k))
           \<and> ''favorite'' \<in> set (classList (es ! k))}"
  proof -
    have "\<And>k x. (x = data_id (es' ! k) \<and> k < length es' \<and> ''book__image'' \<in> set (classList (es' ! k))
                 \<and> ''favorite'' \<in> set (classList (es' ! k))) \<longleftrightarrow>
                (x = data_id (es ! k) \<and> k < length es \<and> ''book__image'' \<in> set (classList (es ! k))
                 \<and> ''favorite'' \<in> set (classList (es ! k)))"
      using assms by auto
    then show ?thesis by simp
  qed
  then show ?thesis by (simp add: fav_coherent_def)
qed

text \<open>
  What a double click does to the list, whatever the form: each element keeps its
  identifier, its \<open>book__image\<close> class and its \<open>hidden\<close> class, and the favourite
  list stays in agreement with the \<open>favorite\<close> classes; nothing else changes.
\<close>

lemma dblclick_elems:
  assumes es: "list_elems s = Some es" and bi: "\<forall>k < length es. ''book__image'' \<in> set (classList (es ! k))"
    and coh: "fav_coherent (favoriteBooks s) es" and u: "ids_unique es"
  shows "\<exists>es'. list_elems (fst (dblclick_handler p s)) = Some es' \<and> length es' = length es \<and>
     (\<forall>k < length es. data_id (es' ! k) = data_id (es ! k) \<and> ''book__image'' \<in> set (classList (es' ! k)) \<and>
        (''hidden'' \<in> set (classList (es' ! k)) \<longleftrightarrow> ''hidden'' \<in> set (classList (es ! k)))) \<and>
     fav_coherent (favoriteBooks (fst (dblclick_handler p s))) es' \<and>
     (fst (dblclick_handler p s))\<lparr>list_elems := list_elems s, favoriteBooks := favoriteBooks s\<rparr> = s"
proof (cases "\<exists>i. p = List_child i \<and> i < length es")
  case True
  then obtain i where i: "p = List_child i" "i < length es" by blast
  let ?es' = "es[i := (es ! i)\<lparr>classList := cl_toggle (classList (es ! i)) ''favorite''\<rparr>]"
  have bii: "''book__image'' \<in> set (classList (es ! i))" using bi i(2) by blast
  have "fav_coherent (toggle_favorite (favoriteBooks s) (data_id (es ! i))) ?es'"
    using fav_coherent_toggle [OF coh u i(2) bii] .
  moreover have "\<forall>k < length es. data_id (?es' ! k) = data_id (es ! k) \<and> ''book__image'' \<in> set (classList (?es' ! k)) \<and>
        (''hidden'' \<in> set (classList (?es' ! k)) \<longleftrightarrow> ''hidden'' \<in> set (classList (es ! k)))"
    using bi i(2) by (auto simp: nth_list_update)
  ultimately show ?thesis using i es bii by (simp add: dblclick_handler_book_image)
next
  case False
  then have "fst (dblclick_handler p s) = s"
    using es by (cases p) (auto simp: dblclick_handler_def)
  then show ?thesis using es bi coh by auto
qed

lemma app_inv_dblclick:
  assumes inv: "app_inv ds s" and d: "distinct (map book_id ds)"
  shows "app_inv ds (fst (dblclick_handler p s))"
proof -
  from inv obtain es cs where es: "list_elems s = Some es" "form_elems s = Some cs"
    "length es = length ds" "dom_bookImage s = [0..<length es]"
    "\<forall>k < length es. data_id (es ! k) = number_to_string (book_id (ds ! k)) \<and>
        ''book__image'' \<in> set (classList (es ! k)) \<and>
        (''hidden'' \<in> set (classList (es ! k)) \<longleftrightarrow> \<not> shown (filters s) (ds ! k))"
    "fav_coherent (favoriteBooks s) es" "mset (filters s) = mset (checked_filters cs)"
    "dblclick_bound s" "click_bound s"
    unfolding app_inv_iff by blast
  have u: "ids_unique es" using ids_unique_rendered [OF d es(3)] es(5) by blast
  obtain es' where e: "list_elems (fst (dblclick_handler p s)) = Some es'" "length es' = length es"
      "\<forall>k < length es. data_id (es' ! k) = data_id (es ! k) \<and> ''book__image'' \<in> set (classList (es' ! k)) \<and>
        (''hidden'' \<in> set (classList (es' ! k)) \<longleftrightarrow> ''hidden'' \<in> set (classList (es ! k)))"
      "fav_coherent (favoriteBooks (fst (dblclick_handler p s))) es'"
      "(fst (dblclick_handler p s))\<lparr>list_elems := list_elems s, favoriteBooks := favoriteBooks s\<rparr> = s"
    using dblclick_elems [OF es(1) _ es(6) u, of p] es(5) by blast
  let ?t = "fst (dblclick_handler p s)"
  have fr: "form_elems ?t = form_elems s" "filters ?t = filters s" "dom_bookImage ?t = dom_bookImage s"
      "dblclick_bound ?t = dblclick_bound s" "click_bound ?t = click_bound s"
    using arg_cong [OF e(5), of form_elems] arg_cong [OF e(5), of filters] arg_cong [OF e(5), of dom_bookImage]
      arg_cong [OF e(5), of dblclick_bound] arg_cong [OF e(5), of click_bound] by simp_all
  show ?thesis unfolding app_inv_iff using e(1-4) fr es by auto
qed

lemma filter_all_rendered:
  assumes d: "distinct (map book_id ds)" and len: "length es = length ds"
    and ids: "\<forall>k < length es. data_id (es ! k) = number_to_string (book_id (ds ! k))"
    and k: "k < length es"
  shows "filter_all ds fs [0..<length es] es ! k =
           (es ! k)\<lparr>classList := (if shown fs (ds ! k) then cl_remove (classList (es ! k)) ''hidden''
                                   else cl_add (classList (es ! k)) ''hidden'')\<rparr>"
proof -
  have "lookup_book ds (es ! k) = Some (ds ! k)"
    using lookup_book_rendered [OF d] len ids k by simp
  then show ?thesis using nth_filter_all [of "[0..<length es]" k es ds fs] k
    by (simp add: filter_one_ok)
qed

text \<open>A form click in an invariant state, as one equation.\<close>

lemma app_inv_shape: "app_inv ds s \<Longrightarrow> page_shape ds s"
  by (auto simp: app_inv_def page_shape_def split: option.splits)

lemma dispatch_click_eq:
  assumes sh: "page_shape ds s" and es: "list_elems s = Some es" and cs: "form_elems s = Some cs"
  shows "dispatch ds s (Click i) =
     (if i < length cs \<and> is_filter_checkbox (cs ! i)
      then (s\<lparr>form_elems := Some (activate_at i cs),
              filters := update_filters (filters s) (activate (cs ! i)),
              list_elems := Some (filter_all ds (update_filters (filters s) (activate (cs ! i)))
                                    [0..<length es] es)\<rparr>, None)
      else (s\<lparr>form_elems := Some (activate_at i cs)\<rparr>, None))"
proof -
  have h: "length es = length ds" "dom_bookImage s = [0..<length es]"
    "\<forall>k < length es. data_id (es ! k) = number_to_string (book_id (ds ! k))" "click_bound s"
    using sh es cs by (auto simp: page_shape_def)
  have res: "\<forall>j \<in> set [0..<length es]. resolves ds (es ! j)"
    using h(1,3) lookup_book_rendered_any by (auto simp: resolves_def)
  let ?t = "s\<lparr>form_elems := Some (activate_at i cs),
              filters := update_filters (filters s) (activate (cs ! i))\<rparr>"
  have fb: "filterBooks ds ?t =
      (?t\<lparr>list_elems := Some (filter_all ds (filters ?t) [0..<length es] es)\<rparr>, None)"
    using filterBooks_ok [of ?t es ds] es h(2) res by simp
  show ?thesis
    using h(4) cs fb by (auto simp: click_handler_def activate_at_nth simp del: activate_filter_checkbox(3)
        split: if_splits) (auto simp: activate_at_def)
qed

lemma app_inv_click:
  assumes inv: "app_inv ds s" and d: "distinct (map book_id ds)"
  shows "app_inv ds (fst (dispatch ds s (Click i)))"
proof -
  from inv obtain es cs where es: "list_elems s = Some es" "form_elems s = Some cs"
    "length es = length ds" "dom_bookImage s = [0..<length es]"
    "\<forall>k < length es. data_id (es ! k) = number_to_string (book_id (ds ! k)) \<and>
        ''book__image'' \<in> set (classList (es ! k)) \<and>
        (''hidden'' \<in> set (classList (es ! k)) \<longleftrightarrow> \<not> shown (filters s) (ds ! k))"
    "fav_coherent (favoriteBooks s) es" "mset (filters s) = mset (checked_filters cs)"
    "dblclick_bound s" "click_bound s"
    unfolding app_inv_iff by blast
  have ids: "\<forall>k < length es. data_id (es ! k) = number_to_string (book_id (ds ! k))" using es(5) by blast
  note eq = dispatch_click_eq [OF app_inv_shape [OF inv] es(1,2), of i]
  show ?thesis
  proof (cases "i < length cs \<and> is_filter_checkbox (cs ! i)")
    case True
    let ?fs = "update_filters (filters s) (activate (cs ! i))"
    let ?es' = "filter_all ds ?fs [0..<length es] es"
    have sync: "mset ?fs = mset (checked_filters (activate_at i cs))"
      using update_filters_activate [OF es(7)] True by blast
    have per: "\<forall>k < length es. data_id (?es' ! k) = data_id (es ! k) \<and>
        (''book__image'' \<in> set (classList (?es' ! k)) \<longleftrightarrow> ''book__image'' \<in> set (classList (es ! k))) \<and>
        (''favorite'' \<in> set (classList (?es' ! k)) \<longleftrightarrow> ''favorite'' \<in> set (classList (es ! k))) \<and>
        (''hidden'' \<in> set (classList (?es' ! k)) \<longleftrightarrow> \<not> shown ?fs (ds ! k))"
      using filter_all_rendered [OF d es(3) ids] by auto
    have coh: "fav_coherent (favoriteBooks s) ?es'"
      using fav_coherent_cong [of ?es' es] per es(6) by simp
    show ?thesis
      using eq True sync per coh es(3,4,5,8,9) by (auto simp: app_inv_iff simp del: dispatch.simps)
  next
    case False
    have "mset (checked_filters (activate_at i cs)) = mset (checked_filters cs)"
      using False checked_filters_activate_other [of cs i] by (cases "i < length cs") (auto simp: activate_at_def)
    then show ?thesis
      using eq False es by (auto simp: app_inv_iff simp del: dispatch.simps)
  qed
qed

lemma app_inv_dispatch:
  "app_inv ds s \<Longrightarrow> distinct (map book_id ds) \<Longrightarrow> app_inv ds (fst (dispatch ds s e))"
proof (cases e)
  case (DblClick p)
  assume "app_inv ds s" "distinct (map book_id ds)"
  then show ?thesis using DblClick app_inv_dblclick [of ds s p] by (auto simp: app_inv_iff)
next
  case (Click i)
  assume "app_inv ds s" "distinct (map book_id ds)"
  then show ?thesis using Click app_inv_click by blast
qed

lemma app_inv_init:
  assumes "page_ok page" and "distinct (map book_id ds)"
  shows "app_inv ds (fst (new_BooksList ds page))"
proof -
  obtain cs where cs: "form_elems page = Some cs" "checked_filters cs = []"
    using assms(1) by (auto simp: page_ok_def split: option.splits)
  have "fav_coherent [] (map (\<lambda>b. template_book (book_context b)) ds)"
    by (simp add: fav_coherent_def)
  with cs show ?thesis
    by (simp add: new_BooksList_page_ok [OF assms(1)] app_inv_def shown_def)
qed

lemma reachable_app_inv:
  assumes "page_ok page" and "distinct (map book_id ds)"
  shows "reachable ds page s \<Longrightarrow> app_inv ds s"
proof (induction rule: reachable.induct)
  case init
  show ?case using assms by (rule app_inv_init)
next
  case (step s e)
  from step.IH assms(2) show ?case by (rule app_inv_dispatch)
qed

lemma reachable_dispatch:
  "reachable ds page s \<Longrightarrow> reachable ds page (fst (dispatch ds s e))"
  by (rule reachable.step)

lemma app_inv_dispatch_error:
  assumes inv: "app_inv ds s" and d: "distinct (map book_id ds)"
  shows "snd (dispatch ds s e) = None \<or> (e = DblClick Null_parent \<and> snd (dispatch ds s e) = Some Null_offset_parent)"
proof (cases e)
  case (DblClick p)
  with inv show ?thesis
    by (cases p) (auto simp: app_inv_iff dblclick_handler_def Let_def split: option.splits)
next
  case (Click i)
  from inv obtain es cs where "list_elems s = Some es" "form_elems s = Some cs"
    unfolding app_inv_iff by blast
  with Click show ?thesis using dispatch_click_eq [OF app_inv_shape [OF inv], of es cs i] by (simp del: dispatch.simps)
qed

lemma app_inv_dispatch_error_eq:
  assumes "app_inv ds s" and "distinct (map book_id ds)"
  shows "snd (dispatch ds s e) = (if e = DblClick Null_parent then Some Null_offset_parent else None)"
  using app_inv_dispatch_error [OF assms, of e] assms(1)
  by (auto simp: app_inv_iff dblclick_handler_def)

lemma run_Cons_eq:
  "run ds s (e # evs) =
     (fst (run ds (fst (dispatch ds s e)) evs),
      (case snd (dispatch ds s e) of None \<Rightarrow> snd (run ds (fst (dispatch ds s e)) evs)
       | Some err \<Rightarrow> err # snd (run ds (fst (dispatch ds s e)) evs)))"
  by (simp only: run.simps case_prod_unfold)

text \<open>
  The exceptions a run reports from an invariant page: one \<open>TypeError\<close> for each double
  click on a target without \<open>offsetParent\<close>, and nothing else.
\<close>

lemma run_error_trace:
  assumes "page_ok page" and "distinct (map book_id ds)"
  shows "reachable ds page s \<Longrightarrow>
         snd (run ds s evs) = replicate (count_list evs (DblClick Null_parent)) Null_offset_parent"
proof (induction evs arbitrary: s)
  case Nil
  then show ?case by simp
next
  case (Cons e evs)
  have inv: "app_inv ds s" using reachable_app_inv [OF assms] Cons.prems .
  have r: "snd (run ds (fst (dispatch ds s e)) evs) = replicate (count_list evs (DblClick Null_parent)) Null_offset_parent"
    using Cons.IH reachable_dispatch [OF Cons.prems] .
  show ?case
    unfolding run_Cons_eq using r app_inv_dispatch_error_eq [OF inv assms(2), of e]
    by (cases "e = DblClick Null_parent") (simp_all del: dispatch.simps)
qed

text \<open>The served page and the sample data meet the hypotheses of the page properties.\<close>

lemma served_page_ok: "page_ok served_page" "distinct (map book_id sample_books)"
  by (simp_all add: page_ok_def served_page_def checked_filters_def filter_box_def sample_books_def)

section \<open>Properties of the page as a whole\<close>

text \<open>
  C16: constructing \<open>BooksList\<close> on the served page throws nothing, renders one element
  per book in data-source order, caches all of them, starts with no favourite and no
  filter, and attaches both listeners.
\<close>

theorem new_BooksList_served:
  assumes "page_ok page"
  shows "snd (new_BooksList ds page) = None \<and>
    list_elems (fst (new_BooksList ds page)) = Some (map (\<lambda>b. template_book (book_context b)) ds) \<and>
    dom_bookImage (fst (new_BooksList ds page)) = [0..<length ds] \<and>
    favoriteBooks (fst (new_BooksList ds page)) = [] \<and> filters (fst (new_BooksList ds page)) = [] \<and>
    dblclick_bound (fst (new_BooksList ds page)) \<and> click_bound (fst (new_BooksList ds page))"
  by (simp add: new_BooksList_page_ok [OF assms])

theorem new_BooksList_served_witness:
  "page_ok served_page \<and> snd (new_BooksList sample_books served_page) = None \<and>
   length (the (list_elems (fst (new_BooksList sample_books served_page)))) = 3"
proof -
  note h = served_page_ok(1)
  show ?thesis using new_BooksList_served [OF h, of sample_books] h by (simp add: sample_books_def)
qed

text \<open>
  C17: the constructor's exceptions: a missing template stops it before anything is
  rendered or attached; a missing list container is a \<open>TypeError\<close> (in the render loop
  when there are books, in \<open>initActions\<close> otherwise) with no listener attached; a
  missing filter form is a \<open>TypeError\<close> raised after the double-click listener has been
  attached, so favourites work and filters never do.
\<close>

theorem new_BooksList_errors:
  "snd (new_BooksList ds page) =
     (if \<not> template_present page then Some Null_template
      else if list_elems page = None then Some Null_books_list
      else if form_elems page = None then Some Null_filters_form
      else None) \<and>
   dblclick_bound (fst (new_BooksList ds page)) =
     (dblclick_bound page \<or> (template_present page \<and> list_elems page \<noteq> None)) \<and>
   click_bound (fst (new_BooksList ds page)) =
     (click_bound page \<or> (template_present page \<and> list_elems page \<noteq> None \<and> form_elems page \<noteq> None))"
  by (auto simp: new_BooksList_def renderBooks_def render_loop_Some render_loop_None getElements_def
      initActions_eq split: option.splits)

text \<open>
  C1: in every state reachable from the served page by any sequence of user events,
  each book's element is hidden exactly when the specification (section 4.2) says it is
  not shown: some filter is active and none of the active filter tags is set in the
  book's details.
\<close>

theorem reachable_visibility:
  assumes "page_ok page" and "distinct (map book_id ds)" and "reachable ds page s"
  shows "\<exists>es. list_elems s = Some es \<and> length es = length ds \<and>
           (\<forall>k < length ds. ''hidden'' \<in> set (classList (es ! k)) \<longleftrightarrow> \<not> shown (filters s) (ds ! k))"
  using reachable_app_inv [OF assms(1,2) assms(3)] by (auto simp: app_inv_iff)

theorem reachable_visibility_witness:
  "page_ok served_page \<and> distinct (map book_id sample_books) \<and>
   reachable sample_books served_page (fst (new_BooksList sample_books served_page)) \<and>
   (\<exists>es. list_elems (fst (new_BooksList sample_books served_page)) = Some es \<and> length es = 3)"
proof -
  note h = served_page_ok
  have r: "reachable sample_books served_page (fst (new_BooksList sample_books served_page))"
    by (rule reachable.init)
  show ?thesis using reachable_visibility [OF h r] h r by (auto simp: sample_books_def)
qed

text \<open>
  C2: in every reachable state the favourite list holds no identifier twice and holds
  exactly the identifiers of the book elements marked \<open>favorite\<close>.
\<close>

theorem reachable_favorites:
  assumes "page_ok page" and "distinct (map book_id ds)" and "reachable ds page s"
  shows "\<exists>es. list_elems s = Some es \<and> distinct (favoriteBooks s) \<and>
           set (favoriteBooks s) = {data_id (es ! k) | k. k < length es \<and> ''favorite'' \<in> set (classList (es ! k))}"
proof -
  from reachable_app_inv [OF assms(1,2) assms(3)] obtain es where
    l: "list_elems s = Some es" and bi: "\<forall>k < length es. ''book__image'' \<in> set (classList (es ! k))"
    and c: "fav_coherent (favoriteBooks s) es"
    unfolding app_inv_iff by blast
  have "\<And>k x. (x = data_id (es ! k) \<and> k < length es \<and> ''book__image'' \<in> set (classList (es ! k))
                \<and> ''favorite'' \<in> set (classList (es ! k))) \<longleftrightarrow>
               (x = data_id (es ! k) \<and> k < length es \<and> ''favorite'' \<in> set (classList (es ! k)))"
    using bi by auto
  with l c show ?thesis by (simp add: fav_coherent_def)
qed

theorem reachable_favorites_witness:
  "page_ok served_page \<and> distinct (map book_id sample_books) \<and>
   reachable sample_books served_page (fst (dispatch sample_books (fst (new_BooksList sample_books served_page)) (DblClick (List_child 1)))) \<and>
   (\<exists>es. list_elems (fst (dispatch sample_books (fst (new_BooksList sample_books served_page)) (DblClick (List_child 1)))) = Some es)"
proof -
  let ?s = "fst (dispatch sample_books (fst (new_BooksList sample_books served_page)) (DblClick (List_child 1)))"
  note h = served_page_ok
  have r: "reachable sample_books served_page ?s"
    by (rule reachable.step [OF reachable.init])
  show ?thesis using reachable_favorites [OF h r] h r by blast
qed

text \<open>
  C3: in every reachable state the filter list holds, as a multiset, the values of the
  filter checkboxes that are checked.
\<close>

theorem reachable_filters_sync:
  assumes "page_ok page" and "distinct (map book_id ds)" and "reachable ds page s"
  shows "\<exists>cs. form_elems s = Some cs \<and> mset (filters s) = mset (checked_filters cs)"
  using reachable_app_inv [OF assms(1,2) assms(3)] by (auto simp: app_inv_iff)

theorem reachable_filters_sync_witness:
  "page_ok served_page \<and> distinct (map book_id sample_books) \<and>
   reachable sample_books served_page (fst (dispatch sample_books (fst (new_BooksList sample_books served_page)) (Click 0))) \<and>
   (\<exists>cs. form_elems (fst (dispatch sample_books (fst (new_BooksList sample_books served_page)) (Click 0))) = Some cs)"
proof -
  let ?s = "fst (dispatch sample_books (fst (new_BooksList sample_books served_page)) (Click 0))"
  note h = served_page_ok
  have r: "reachable sample_books served_page ?s"
    by (rule reachable.step [OF reachable.init])
  show ?thesis using reachable_filters_sync [OF h r] h r by blast
qed

text \<open>
  C4: along any sequence of user events after loading the served page, the exceptions
  reported are exactly one \<open>TypeError\<close> for each double click whose target has no
  \<open>offsetParent\<close>, in order, and nothing else; in particular \<open>filterBooks\<close> never
  throws.
\<close>

theorem load_run_errors:
  assumes "page_ok page" and "distinct (map book_id ds)"
  shows "snd (new_BooksList ds page) = None \<and>
         snd (run ds (fst (new_BooksList ds page)) evs) =
           replicate (count_list evs (DblClick Null_parent)) Null_offset_parent"
proof -
  have "snd (new_BooksList ds page) = None" using assms(1) by (simp add: new_BooksList_page_ok)
  moreover have "snd (run ds (fst (new_BooksList ds page)) evs) =
      replicate (count_list evs (DblClick Null_parent)) Null_offset_parent"
    using run_error_trace [OF assms reachable.init] .
  ultimately show ?thesis by blast
qed

theorem load_run_errors_witness:
  "page_ok served_page \<and> distinct (map book_id sample_books) \<and>
   snd (run sample_books (fst (new_BooksList sample_books served_page))
      [Click 0, DblClick (List_child 2), Click 1, DblClick Null_parent]) = [Null_offset_parent]"
proof -
  note h = served_page_ok
  show ?thesis using load_run_errors [OF h, of "[Click 0, DblClick (List_child 2), Click 1, DblClick Null_parent]"] h
    by simp
qed

end
