(* ===== verification/Page_Spec.thy ===== *)
theory Page_Spec
  imports BooksList
begin

text \<open>
  The specification's view of the page (sections 3 and 4 of the design), written
  independently of the script, and its refinement by the model of \<open>script.js\<close>: the
  abstraction \<open>abs_of\<close> of a page state, the abstract action \<open>abs_event_of\<close> of an
  event, and the simulation lemmas for one event and for a run of events.
\<close>

section \<open>The specification's page model\<close>

text \<open>
  What the specification (sections 3 and 4) says the page keeps: a set of favourite
  identifiers, a collection of active filter tags, and which books are hidden; and
  what each user action does to it: a double click on a book toggles its identifier,
  a click on a filter box adds or removes its value and recomputes the hidden books by
  the visibility rule, anything else changes nothing. \<open>abs_of\<close> reads this view off
  a page state and \<open>abs_event_of\<close> says which action a concrete event is.
\<close>

record abs_page =
  a_favorites :: "string set"
  a_filters :: "string multiset"
  a_hidden :: "nat set"

datatype abs_event = AToggleFav string | AToggleFilter string bool | ANop

definition shown_set :: "string set \<Rightarrow> book \<Rightarrow> bool" where
  "shown_set S b \<longleftrightarrow> S = {} \<or> (\<exists>d. details b = Some d \<and> (\<exists>f \<in> S. d f = Some True))"

fun abs_step :: "book list \<Rightarrow> abs_page \<Rightarrow> abs_event \<Rightarrow> abs_page" where
  "abs_step ds a (AToggleFav x) =
     a\<lparr>a_favorites := (if x \<in> a_favorites a then a_favorites a - {x} else insert x (a_favorites a))\<rparr>"
| "abs_step ds a (AToggleFilter v on) =
     (let F = (if on then a_filters a + {#v#} else a_filters a - {#v#})
      in a\<lparr>a_filters := F, a_hidden := {k. k < length ds \<and> \<not> shown_set (set_mset F) (ds ! k)}\<rparr>)"
| "abs_step ds a ANop = a"

definition abs_of :: "book list \<Rightarrow> app \<Rightarrow> abs_page" where
  "abs_of ds s =
     \<lparr>a_favorites = set (favoriteBooks s), a_filters = mset (filters s),
      a_hidden = {k. k < length ds \<and>
                   (case list_elems s of None \<Rightarrow> False | Some es \<Rightarrow> ''hidden'' \<in> set (classList (es ! k)))}\<rparr>"

fun abs_event_of :: "app \<Rightarrow> event \<Rightarrow> abs_event" where
  "abs_event_of s (DblClick (List_child i)) =
     (case list_elems s of
        Some es \<Rightarrow> if i < length es then AToggleFav (data_id (es ! i)) else ANop
      | None \<Rightarrow> ANop)"
| "abs_event_of s (DblClick _) = ANop"
| "abs_event_of s (Click i) =
     (case form_elems s of
        Some cs \<Rightarrow> if i < length cs \<and> is_filter_checkbox (cs ! i)
                   then AToggleFilter (ctl_value (cs ! i)) (\<not> ctl_checked (cs ! i)) else ANop
      | None \<Rightarrow> ANop)"

text \<open>The model's initial state, and a run of abstract actions.\<close>

definition abs_init :: abs_page where
  "abs_init = \<lparr>a_favorites = {}, a_filters = {#}, a_hidden = {}\<rparr>"

fun abs_run :: "book list \<Rightarrow> abs_page \<Rightarrow> abs_event list \<Rightarrow> abs_page" where
  "abs_run ds a [] = a"
| "abs_run ds a (x # xs) = abs_run ds (abs_step ds a x) xs"

text \<open>The abstract actions that a run of events performs, read off the states it passes.\<close>

fun abs_trace :: "book list \<Rightarrow> app \<Rightarrow> event list \<Rightarrow> abs_event list" where
  "abs_trace ds s [] = []"
| "abs_trace ds s (e # evs) = abs_event_of s e # abs_trace ds (fst (dispatch ds s e)) evs"

section \<open>Refinement\<close>

lemma shown_set_eq: "shown fs b = shown_set (set fs) b"
  by (simp add: shown_def shown_set_def)

lemma refine_dblclick:
  assumes inv: "app_inv ds s" and d: "distinct (map book_id ds)"
  shows "abs_of ds (fst (dispatch ds s (DblClick p))) = abs_step ds (abs_of ds s) (abs_event_of s (DblClick p))"
proof -
  from inv obtain es where es: "list_elems s = Some es" "length es = length ds"
    "\<forall>k < length es. ''book__image'' \<in> set (classList (es ! k))"
    "fav_coherent (favoriteBooks s) es" "dblclick_bound s"
    unfolding app_inv_iff by blast
  show ?thesis
  proof (cases p)
    case (List_child i)
    show ?thesis
    proof (cases "i < length es")
      case True
      let ?es' = "es[i := (es ! i)\<lparr>classList := cl_toggle (classList (es ! i)) ''favorite''\<rparr>]"
      have dist: "distinct (favoriteBooks s)" using es(4) by (simp add: fav_coherent_def)
      have h: "\<And>k. k < length es \<Longrightarrow> (''hidden'' \<in> set (classList (?es' ! k))) = (''hidden'' \<in> set (classList (es ! k)))"
        using True by (auto simp: nth_list_update)
      have "{k. k < length ds \<and> ''hidden'' \<in> set (classList (?es' ! k))} = {k. k < length ds \<and> ''hidden'' \<in> set (classList (es ! k))}"
        using h es(2) by auto
      then show ?thesis
        using List_child True es toggle_favorite_distinct_set [OF dist, of "data_id (es ! i)"]
        by (simp add: dblclick_handler_book_image abs_of_def)
    next
      case False
      then show ?thesis using List_child es by (simp add: dblclick_handler_other)
    qed
  qed (use es in \<open>simp_all add: dblclick_handler_def\<close>)
qed

lemma refine_click:
  assumes inv: "app_inv ds s" and d: "distinct (map book_id ds)"
  shows "abs_of ds (fst (dispatch ds s (Click i))) = abs_step ds (abs_of ds s) (abs_event_of s (Click i))"
proof -
  from inv obtain es cs where es: "list_elems s = Some es" "form_elems s = Some cs"
    "length es = length ds" "\<forall>k < length es. data_id (es ! k) = number_to_string (book_id (ds ! k))"
    unfolding app_inv_iff by blast
  note eq = dispatch_click_eq [OF app_inv_shape [OF inv] es(1,2), of i]
  show ?thesis
  proof (cases "i < length cs \<and> is_filter_checkbox (cs ! i)")
    case True
    let ?fs = "update_filters (filters s) (activate (cs ! i))"
    let ?v = "ctl_value (cs ! i)" and ?on = "\<not> ctl_checked (cs ! i)"
    have F: "mset ?fs = (if ?on then mset (filters s) + {#?v#} else mset (filters s) - {#?v#})"
      using True by (simp add: update_filters_eq)
    have "\<And>k. k < length es \<Longrightarrow>
        ''hidden'' \<in> set (classList (filter_all ds ?fs [0..<length es] es ! k)) \<longleftrightarrow>
        \<not> shown_set (set_mset (mset ?fs)) (ds ! k)"
      using filter_all_rendered [OF d es(3,4)] by (simp add: shown_set_eq)
    then have hid: "{k. k < length ds \<and> ''hidden'' \<in> set (classList (filter_all ds ?fs [0..<length es] es ! k))}
        = {k. k < length ds \<and> \<not> shown_set (set_mset (mset ?fs)) (ds ! k)}"
      using es(3) by auto
    show ?thesis
      using eq True F hid es(2) by (simp add: abs_of_def Let_def del: dispatch.simps)
  next
    case False
    then show ?thesis using eq es(1,2) by (auto simp: abs_of_def simp del: dispatch.simps)
  qed
qed

lemma dispatch_refines:
  assumes "app_inv ds s" and "distinct (map book_id ds)"
  shows "abs_of ds (fst (dispatch ds s e)) = abs_step ds (abs_of ds s) (abs_event_of s e)"
proof (cases e)
  case (DblClick p)
  then show ?thesis using refine_dblclick [OF assms] by simp
next
  case (Click i)
  then show ?thesis using refine_click [OF assms] by simp
qed

lemma abs_of_new_BooksList:
  "page_ok page \<Longrightarrow> abs_of ds (fst (new_BooksList ds page)) = abs_init"
  by (simp add: new_BooksList_page_ok abs_of_def abs_init_def)

lemma run_Cons_fst:
  "fst (run ds s (e # evs)) = fst (run ds (fst (dispatch ds s e)) evs)"
  by (simp split: prod.splits)

lemma run_Cons_ok:
  "snd (dispatch ds s e) = None \<Longrightarrow> snd (run ds s (e # evs)) = snd (run ds (fst (dispatch ds s e)) evs)"
  by (auto split: prod.splits)

lemma reachable_run:
  "reachable ds page s \<Longrightarrow> reachable ds page (fst (run ds s evs))"
proof (induction evs arbitrary: s)
  case Nil
  then show ?case by simp
next
  case (Cons e evs)
  then show ?case unfolding run_Cons_fst by (simp add: reachable.step)
qed

lemma run_refines:
  assumes "page_ok page" and "distinct (map book_id ds)"
  shows "reachable ds page s \<Longrightarrow>
         abs_of ds (fst (run ds s evs)) = abs_run ds (abs_of ds s) (abs_trace ds s evs)"
proof (induction evs arbitrary: s)
  case Nil
  then show ?case by simp
next
  case (Cons e evs)
  have "app_inv ds s" using reachable_app_inv [OF assms] Cons.prems .
  then have "abs_of ds (fst (dispatch ds s e)) = abs_step ds (abs_of ds s) (abs_event_of s e)"
    using assms(2) by (rule dispatch_refines)
  moreover have "reachable ds page (fst (dispatch ds s e))" using Cons.prems by (rule reachable.step)
  ultimately show ?case unfolding run_Cons_fst using Cons.IH by simp
qed

text \<open>
  Every favourite can be undone by a double click on its element, and every active
  filter tag by a click on a checked box that carries it.
\<close>

lemma fav_event_exists:
  assumes inv: "app_inv ds s" and x: "x \<in> set (favoriteBooks s)"
  shows "\<exists>k. abs_event_of s (DblClick (List_child k)) = AToggleFav x"
proof -
  obtain es where es: "list_elems s = Some es" "fav_coherent (favoriteBooks s) es"
    using inv unfolding app_inv_iff by blast
  then obtain k where "k < length es" "data_id (es ! k) = x"
    using x by (auto simp: fav_coherent_def)
  then show ?thesis using es(1) by (intro exI [of _ k]) simp
qed

lemma filter_event_exists:
  assumes inv: "app_inv ds s" and v: "v \<in> set (filters s)"
  shows "\<exists>i. abs_event_of s (Click i) = AToggleFilter v False"
proof -
  obtain cs where cs: "form_elems s = Some cs" "mset (filters s) = mset (checked_filters cs)"
    using inv unfolding app_inv_iff by blast
  then have "v \<in> set (checked_filters cs)" using v by (metis set_mset_mset)
  then obtain c where c: "c \<in> set cs" "is_filter_checkbox c" "ctl_checked c" "ctl_value c = v"
    by (auto simp: checked_filters_def)
  then obtain i where "i < length cs" "cs ! i = c" by (auto simp: in_set_conv_nth)
  then show ?thesis using cs(1) c by (intro exI [of _ i]) simp
qed

text \<open>
  From every reachable state some events lead back to the model's initial state without
  an exception: by induction on the number of favourites and active filter tags, each
  undone by one event.
\<close>

lemma abs_of_sel [simp]:
  "a_favorites (abs_of ds s) = set (favoriteBooks s)" "a_filters (abs_of ds s) = mset (filters s)"
  by (simp_all add: abs_of_def)

lemma abs_of_fields:
  "abs_of ds t = a \<Longrightarrow> set (favoriteBooks t) = a_favorites a \<and> mset (filters t) = a_filters a"
  by auto

lemma reset_exists:
  assumes ok: "page_ok page" and d: "distinct (map book_id ds)"
  shows "reachable ds page s \<Longrightarrow>
         \<exists>evs. abs_of ds (fst (run ds s evs)) = abs_init \<and> snd (run ds s evs) = []"
proof (induction s rule: measure_induct_rule [where f = "\<lambda>s. card (set (favoriteBooks s)) + length (filters s)"])
  case (less s)
  have inv: "app_inv ds s" using reachable_app_inv [OF ok d] less.prems .
  have step: "\<And>e. e \<noteq> DblClick Null_parent \<Longrightarrow>
      abs_of ds (fst (dispatch ds s e)) = abs_step ds (abs_of ds s) (abs_event_of s e) \<and>
      snd (dispatch ds s e) = None \<and> reachable ds page (fst (dispatch ds s e))"
    using dispatch_refines [OF inv d] app_inv_dispatch_error [OF inv d] reachable.step [OF less.prems]
    by blast
  have cont: "\<exists>evs. abs_of ds (fst (run ds s evs)) = abs_init \<and> snd (run ds s evs) = []"
    if e: "e \<noteq> DblClick Null_parent"
      and lt: "card (set (favoriteBooks (fst (dispatch ds s e)))) + length (filters (fst (dispatch ds s e)))
               < card (set (favoriteBooks s)) + length (filters s)" for e
  proof -
    obtain evs where "abs_of ds (fst (run ds (fst (dispatch ds s e)) evs)) = abs_init \<and>
        snd (run ds (fst (dispatch ds s e)) evs) = []"
      using less.IH [OF lt] step [OF e] by blast
    then have "abs_of ds (fst (run ds s (e # evs))) = abs_init \<and> snd (run ds s (e # evs)) = []"
      using step [OF e] by (simp only: run_Cons_fst run_Cons_ok)
    then show ?thesis by blast
  qed
  show ?case
  proof (cases "favoriteBooks s = []")
    case False
    then obtain x where x: "x \<in> set (favoriteBooks s)" by (cases "favoriteBooks s") auto
    obtain k where k: "abs_event_of s (DblClick (List_child k)) = AToggleFav x"
      using fav_event_exists [OF inv x] by blast
    define t where "t = fst (dispatch ds s (DblClick (List_child k)))"
    have eq: "abs_of ds t = abs_step ds (abs_of ds s) (AToggleFav x)"
      unfolding t_def using step [of "DblClick (List_child k)"] k by (simp del: dispatch.simps)
    have "set (favoriteBooks t) = set (favoriteBooks s) - {x}" "mset (filters t) = mset (filters s)"
      using abs_of_fields [OF eq] x by simp_all
    then have "set (favoriteBooks t) = set (favoriteBooks s) - {x}" "length (filters t) = length (filters s)"
      using mset_eq_length by blast+
    then have "card (set (favoriteBooks t)) + length (filters t) < card (set (favoriteBooks s)) + length (filters s)"
      using card_Diff1_less [OF finite_set x] by simp
    then show ?thesis using cont [of "DblClick (List_child k)"] unfolding t_def by blast
  next
    case favs: True
    show ?thesis
    proof (cases "filters s = []")
      case False
      then obtain v where v: "v \<in> set (filters s)" by (cases "filters s") auto
      obtain i where i: "abs_event_of s (Click i) = AToggleFilter v False"
        using filter_event_exists [OF inv v] by blast
      define t where "t = fst (dispatch ds s (Click i))"
      have eq: "abs_of ds t = abs_step ds (abs_of ds s) (AToggleFilter v False)"
        unfolding t_def using step [of "Click i"] i by (simp del: dispatch.simps)
      have "set (favoriteBooks t) = set (favoriteBooks s)" "mset (filters t) = mset (filters s) - {#v#}"
        using abs_of_fields [OF eq] by (simp_all add: Let_def)
      moreover have "size (mset (filters s) - {#v#}) < size (mset (filters s))"
        using size_Diff1_less [of v "mset (filters s)"] v by simp
      ultimately have "card (set (favoriteBooks t)) + length (filters t) < card (set (favoriteBooks s)) + length (filters s)"
        by (metis add_less_cancel_left size_mset)
      then show ?thesis using cont [of "Click i"] unfolding t_def by blast
    next
      case True
      obtain es where es: "list_elems s = Some es" "length es = length ds"
          "\<forall>k < length es. ''hidden'' \<in> set (classList (es ! k)) \<longleftrightarrow> \<not> shown (filters s) (ds ! k)"
        using inv unfolding app_inv_iff by blast
      have "abs_of ds s = abs_init"
        using favs True es by (simp add: abs_of_def abs_init_def shown_def)
      then show ?thesis by (intro exI [of _ "[]"]) simp
    qed
  qed
qed

text \<open>
  A double click and a form click read and write disjoint parts of the page: the former
  leaves the form alone, the latter keeps every element's identifier.
\<close>

lemma abs_event_of_dblclick_then_click:
  "abs_event_of (fst (dispatch ds s (DblClick p))) (Click i) = abs_event_of s (Click i)"
proof -
  have "form_elems (fst (dispatch ds s (DblClick p))) = form_elems s"
    by (cases p) (auto simp: dblclick_handler_def Let_def split: option.splits)
  then show ?thesis by (simp del: dispatch.simps)
qed

lemma abs_event_of_click_then_dblclick:
  assumes inv: "app_inv ds s" and d: "distinct (map book_id ds)"
  shows "abs_event_of (fst (dispatch ds s (Click i))) (DblClick p) = abs_event_of s (DblClick p)"
proof -
  from inv obtain es cs where es: "list_elems s = Some es" "form_elems s = Some cs"
    "length es = length ds" "\<forall>k < length es. data_id (es ! k) = number_to_string (book_id (ds ! k))"
    unfolding app_inv_iff by blast
  let ?fs = "update_filters (filters s) (activate (cs ! i))"
  have ids: "\<forall>k < length es. data_id (filter_all ds ?fs [0..<length es] es ! k) = data_id (es ! k)"
    using filter_all_rendered [OF d es(3,4)] by simp
  show ?thesis
    using dispatch_click_eq [OF app_inv_shape [OF inv] es(1,2), of i] es(1) ids
    by (cases p) (auto simp del: dispatch.simps)
qed

lemma abs_event_of_dblclick_cases:
  "abs_event_of s (DblClick p) = ANop \<or> (\<exists>x. abs_event_of s (DblClick p) = AToggleFav x)"
  by (cases p) (auto split: option.splits)

lemma abs_step_fav_commute:
  "(\<And>y. f \<noteq> AToggleFav y) \<Longrightarrow>
   abs_step ds (abs_step ds a (AToggleFav x)) f = abs_step ds (abs_step ds a f) (AToggleFav x)"
  by (cases f) (auto simp: Let_def)

text \<open>A double click on a book image, in a state where its listener is bound.\<close>

lemma dispatch_dblclick_elem:
  assumes "dblclick_bound s" and "list_elems s = Some es" and "k < length es"
    and "''book__image'' \<in> set (classList (es ! k))"
  shows "list_elems (fst (dispatch ds s (DblClick (List_child k)))) =
           Some (es[k := (es ! k)\<lparr>classList := cl_toggle (classList (es ! k)) ''favorite''\<rparr>])"
    and "form_elems (fst (dispatch ds s (DblClick (List_child k)))) = form_elems s"
    and "filters (fst (dispatch ds s (DblClick (List_child k)))) = filters s"
  using assms by (simp_all add: dblclick_handler_book_image)

text \<open>
  C8: the script implements the specification's page model: construction on the served
  page yields the model's initial state (no favourite, no filter, nothing hidden), and
  from every reachable state each event changes the page exactly as the model's step
  for the corresponding action does.
\<close>

theorem dispatch_refines_spec:
  assumes "page_ok page" and "distinct (map book_id ds)" and "reachable ds page s"
  shows "abs_of ds (fst (new_BooksList ds page)) = abs_init \<and>
         abs_of ds (fst (dispatch ds s e)) = abs_step ds (abs_of ds s) (abs_event_of s e)"
  using abs_of_new_BooksList [OF assms(1)] dispatch_refines [OF reachable_app_inv [OF assms(1,2) assms(3)] assms(2)]
  by blast

theorem dispatch_refines_spec_witness:
  "page_ok served_page \<and> distinct (map book_id sample_books) \<and>
   reachable sample_books served_page (fst (new_BooksList sample_books served_page)) \<and>
   abs_of sample_books (fst (dispatch sample_books (fst (new_BooksList sample_books served_page)) (Click 0))) =
     abs_step sample_books (abs_of sample_books (fst (new_BooksList sample_books served_page)))
       (abs_event_of (fst (new_BooksList sample_books served_page)) (Click 0))"
proof -
  note h = served_page_ok
  have r: "reachable sample_books served_page (fst (new_BooksList sample_books served_page))"
    by (rule reachable.init)
  show ?thesis using dispatch_refines_spec [OF h r] h r by blast
qed

text \<open>
  C9: over a whole run of events after loading the served page, the script's page moves
  exactly as the specification's model does under the actions the events perform:
  the abstraction of the final state is the model's run of those actions from its
  initial state.
\<close>

theorem load_run_refines_spec:
  assumes "page_ok page" and "distinct (map book_id ds)"
  shows "abs_of ds (fst (run ds (fst (new_BooksList ds page)) evs)) =
           abs_run ds abs_init (abs_trace ds (fst (new_BooksList ds page)) evs)"
  using run_refines [OF assms reachable.init, of evs] abs_of_new_BooksList [OF assms(1), of ds] by simp

theorem load_run_refines_spec_witness:
  "page_ok served_page \<and> distinct (map book_id sample_books) \<and>
   abs_of sample_books (fst (run sample_books (fst (new_BooksList sample_books served_page)) [Click 0, DblClick (List_child 2)])) =
     abs_run sample_books abs_init (abs_trace sample_books (fst (new_BooksList sample_books served_page)) [Click 0, DblClick (List_child 2)])"
proof -
  note h = served_page_ok
  show ?thesis using load_run_refines_spec [OF h] h by blast
qed

text \<open>
  C12: a double click on a book and a click on the filter form commute as far as the
  specification can tell: from every reachable state, both orders give the same
  favourites, the same filter tags and the same hidden books.
\<close>

theorem dblclick_click_commute:
  assumes "page_ok page" and "distinct (map book_id ds)" and "reachable ds page s"
  shows "abs_of ds (fst (dispatch ds (fst (dispatch ds s (DblClick p))) (Click i))) =
         abs_of ds (fst (dispatch ds (fst (dispatch ds s (Click i))) (DblClick p)))"
proof -
  have inv: "app_inv ds s" using reachable_app_inv [OF assms(1,2) assms(3)] .
  have inv1: "app_inv ds (fst (dispatch ds s (DblClick p)))" using app_inv_dispatch [OF inv assms(2)] .
  have inv2: "app_inv ds (fst (dispatch ds s (Click i)))" using app_inv_dispatch [OF inv assms(2)] .
  let ?D = "abs_event_of s (DblClick p)" and ?C = "abs_event_of s (Click i)"
  have l: "abs_of ds (fst (dispatch ds (fst (dispatch ds s (DblClick p))) (Click i))) =
           abs_step ds (abs_step ds (abs_of ds s) ?D) ?C"
    using dispatch_refines [OF inv1 assms(2), of "Click i"] dispatch_refines [OF inv assms(2), of "DblClick p"]
      abs_event_of_dblclick_then_click [of ds s p i] by (simp del: dispatch.simps)
  have r: "abs_of ds (fst (dispatch ds (fst (dispatch ds s (Click i))) (DblClick p))) =
           abs_step ds (abs_step ds (abs_of ds s) ?C) ?D"
    using dispatch_refines [OF inv2 assms(2), of "DblClick p"] dispatch_refines [OF inv assms(2), of "Click i"]
      abs_event_of_click_then_dblclick [OF inv assms(2), of i p] by (simp del: dispatch.simps)
  have c: "\<And>y. ?C \<noteq> AToggleFav y" by (auto split: option.splits)
  from abs_event_of_dblclick_cases [of s p] show ?thesis
  proof
    assume "?D = ANop"
    then show ?thesis unfolding l r by simp
  next
    assume "\<exists>x. ?D = AToggleFav x"
    then obtain x where x: "?D = AToggleFav x" ..
    show ?thesis unfolding l r x by (rule abs_step_fav_commute [OF c])
  qed
qed

theorem dblclick_click_commute_witness:
  "page_ok served_page \<and> distinct (map book_id sample_books) \<and>
   reachable sample_books served_page (fst (new_BooksList sample_books served_page)) \<and>
   abs_of sample_books (fst (dispatch sample_books (fst (dispatch sample_books (fst (new_BooksList sample_books served_page)) (DblClick (List_child 2)))) (Click 0))) =
   abs_of sample_books (fst (dispatch sample_books (fst (dispatch sample_books (fst (new_BooksList sample_books served_page)) (Click 0))) (DblClick (List_child 2))))"
proof -
  note h = served_page_ok
  have r: "reachable sample_books served_page (fst (new_BooksList sample_books served_page))"
    by (rule reachable.init)
  show ?thesis using dblclick_click_commute [OF h r] h r by blast
qed

text \<open>
  C26: but the order of the two events shows in the page itself. From every reachable
  state, for a book element marked neither \<open>favorite\<close> nor \<open>hidden\<close> and a click
  on a filter box whose toggle hides that book, favouriting first leaves the element's
  class list ending in \<open>favorite hidden\<close>, clicking first leaves it ending in
  \<open>hidden favorite\<close>: a \<open>DOMTokenList\<close> keeps insertion order, so the element's
  \<open>className\<close> depends on the order of the user's actions.
\<close>

theorem event_order_class_list:
  assumes "page_ok page" and d: "distinct (map book_id ds)" and r: "reachable ds page s"
    and es: "list_elems s = Some es" and cs: "form_elems s = Some cs"
    and k: "k < length es" and i: "i < length cs" "is_filter_checkbox (cs ! i)"
    and nf: "''favorite'' \<notin> set (classList (es ! k))" and nh: "''hidden'' \<notin> set (classList (es ! k))"
    and hide: "\<not> shown (update_filters (filters s) (activate (cs ! i))) (ds ! k)"
  shows "classList (the (list_elems (fst (dispatch ds (fst (dispatch ds s (DblClick (List_child k)))) (Click i)))) ! k) =
           classList (es ! k) @ [''favorite'', ''hidden''] \<and>
         classList (the (list_elems (fst (dispatch ds (fst (dispatch ds s (Click i))) (DblClick (List_child k))))) ! k) =
           classList (es ! k) @ [''hidden'', ''favorite'']"
proof -
  let ?fs = "update_filters (filters s) (activate (cs ! i))"
  have inv: "app_inv ds s" using reachable_app_inv [OF assms(1) d r] .
  then have h: "length es = length ds" "\<forall>k < length es. data_id (es ! k) = number_to_string (book_id (ds ! k))"
      "''book__image'' \<in> set (classList (es ! k))" "dblclick_bound s"
    using es cs k unfolding app_inv_iff by auto
  let ?s1 = "fst (dispatch ds s (DblClick (List_child k)))"
  let ?es1 = "es[k := (es ! k)\<lparr>classList := cl_toggle (classList (es ! k)) ''favorite''\<rparr>]"
  note s1 = dispatch_dblclick_elem [OF h(4) es k h(3), of ds]
  have sh1: "page_shape ds ?s1"
    using reachable_app_inv [OF assms(1) d reachable.step [OF r]] by (rule app_inv_shape)
  have ids1: "\<forall>j < length ?es1. data_id (?es1 ! j) = number_to_string (book_id (ds ! j))"
    using h(2) by (simp add: data_id_update)
  have a: "classList (the (list_elems (fst (dispatch ds ?s1 (Click i)))) ! k) =
             classList (es ! k) @ [''favorite'', ''hidden'']"
    using dispatch_click_eq [OF sh1 s1(1), of cs i] s1(2,3) cs i hide
      filter_all_rendered [OF d _ ids1, of k ?fs] h(1) k nf nh
    by (simp add: cl_toggle_def cl_add_def del: dispatch.simps)
  let ?t1 = "fst (dispatch ds s (Click i))"
  let ?et = "filter_all ds ?fs [0..<length es] es"
  have t1: "list_elems ?t1 = Some ?et" "dblclick_bound ?t1"
    using dispatch_click_eq [OF app_inv_shape [OF inv] es cs, of i] i h(4) by (simp_all del: dispatch.simps)
  have etk: "?et ! k = (es ! k)\<lparr>classList := classList (es ! k) @ [''hidden'']\<rparr>"
    using filter_all_rendered [OF d h(1,2) k, of ?fs] hide nh by (simp add: cl_add_def js_simps)
  have bt: "k < length ?et" "''book__image'' \<in> set (classList (?et ! k))" using etk k h(3) by simp_all
  have b: "classList (the (list_elems (fst (dispatch ds ?t1 (DblClick (List_child k))))) ! k) =
             classList (es ! k) @ [''hidden'', ''favorite'']"
    using dispatch_dblclick_elem(1) [OF t1(2) t1(1) bt, of ds] etk nf k
    by (simp add: cl_toggle_def del: dispatch.simps)
  show ?thesis using a b by simp
qed


theorem event_order_class_list_witness:
  "page_ok served_page \<and> distinct (map book_id sample_books) \<and>
   reachable sample_books served_page (fst (new_BooksList sample_books served_page)) \<and>
   list_elems (fst (new_BooksList sample_books served_page)) =
     Some (map (\<lambda>b. template_book (book_context b)) sample_books) \<and>
   form_elems (fst (new_BooksList sample_books served_page)) =
     Some [filter_box ''horror'' False, filter_box ''adults'' False] \<and>
   2 < length (map (\<lambda>b. template_book (book_context b)) sample_books) \<and>
   0 < length [filter_box ''horror'' False, filter_box ''adults'' False] \<and>
   is_filter_checkbox ([filter_box ''horror'' False, filter_box ''adults'' False] ! 0) \<and>
   \<not> shown (update_filters (filters (fst (new_BooksList sample_books served_page)))
       (activate ([filter_box ''horror'' False, filter_box ''adults'' False] ! 0))) (sample_books ! 2) \<and>
   classList (the (list_elems (fst (dispatch sample_books (fst (dispatch sample_books
       (fst (new_BooksList sample_books served_page)) (DblClick (List_child 2)))) (Click 0)))) ! 2) =
     [''book__image'', ''favorite'', ''hidden''] \<and>
   classList (the (list_elems (fst (dispatch sample_books (fst (dispatch sample_books
       (fst (new_BooksList sample_books served_page)) (Click 0))) (DblClick (List_child 2))))) ! 2) =
     [''book__image'', ''hidden'', ''favorite'']"
proof -
  let ?s = "fst (new_BooksList sample_books served_page)"
  let ?es = "map (\<lambda>b. template_book (book_context b)) sample_books"
  let ?cs = "[filter_box ''horror'' False, filter_box ''adults'' False]"
  note h = served_page_ok
  have r: "reachable sample_books served_page ?s" by (rule reachable.init)
  have s: "list_elems ?s = Some ?es" "form_elems ?s = Some ?cs" "filters ?s = []"
    unfolding new_BooksList_page_ok [OF h(1)] by (simp_all add: served_page_def)
  have k: "2 < length ?es" "''favorite'' \<notin> set (classList (?es ! 2))" "''hidden'' \<notin> set (classList (?es ! 2))"
    by (simp_all add: sample_books_def)
  have i: "0 < length ?cs" "is_filter_checkbox (?cs ! 0)"
    by (simp_all add: filter_box_def is_filter_checkbox_def)
  have hide: "\<not> shown (update_filters (filters ?s) (activate (?cs ! 0))) (sample_books ! 2)"
    using s(3) by (simp add: update_filters_eq activate_def filter_box_def shown_def sample_books_def)
  have "2 < length sample_books" by (simp add: sample_books_def)
  then have cl: "classList (?es ! 2) = [''book__image'']" by simp
  show ?thesis
    using event_order_class_list [OF h r s(1,2) k(1) i k(2,3) hide] h r s k i hide cl by simp
qed

end
