(* ===== verification/Item_State.thy ===== *)
theory Item_State
  imports BooksList
begin

text \<open>
  The book elements one at a time. First their shape: every element of the running page
  is the element the template rendered for its book, except that its class list (a
  \<open>DOMTokenList\<close>, so without repetitions) has gained some of the classes \<open>favorite\<close>
  and \<open>hidden\<close> after \<open>book__image\<close>: a type invariant of the page, preserved by
  every event.
\<close>

definition tokens_wf :: "string list \<Rightarrow> bool" where
  "tokens_wf l \<longleftrightarrow>
     l \<noteq> [] \<and> hd l = ''book__image'' \<and> distinct l \<and> set (tl l) \<subseteq> {''favorite'', ''hidden''}"

definition elem_wf :: "book \<Rightarrow> elem \<Rightarrow> bool" where
  "elem_wf b e \<longleftrightarrow>
     tokens_wf (classList e) \<and> e\<lparr>classList := [''book__image'']\<rparr> = template_book (book_context b)"

definition elems_wf :: "book list \<Rightarrow> app \<Rightarrow> bool" where
  "elems_wf ds s \<longleftrightarrow> (case list_elems s of None \<Rightarrow> False | Some es \<Rightarrow> list_all2 elem_wf ds es)"

section \<open>Lemmas\<close>

lemma elem_wf_template [simp]: "elem_wf b (template_book (book_context b))"
  by (simp add: elem_wf_def tokens_wf_def template_book_def)

text \<open>Adding, removing or toggling \<open>favorite\<close> or \<open>hidden\<close> keeps a class list well formed.\<close>

lemma tokens_wf_ops:
  assumes wf: "tokens_wf l" and c: "c = ''favorite'' \<or> c = ''hidden''"
  shows "tokens_wf (cl_add l c) \<and> tokens_wf (cl_remove l c) \<and> tokens_wf (cl_toggle l c)"
proof -
  obtain cs where l: "l = ''book__image'' # cs" and d: "''book__image'' \<notin> set cs" "distinct cs"
      and sub: "set cs \<subseteq> {''favorite'', ''hidden''}"
    using wf by (cases l) (auto simp: tokens_wf_def)
  have bi: "c \<noteq> ''book__image''" using c by auto
  have r: "tokens_wf (''book__image'' # removeAll c cs)"
    using d sub by (auto simp: tokens_wf_def distinct_removeAll)
  have a: "c \<notin> set cs \<Longrightarrow> tokens_wf (''book__image'' # cs @ [c])"
    using d sub c bi by (auto simp: tokens_wf_def)
  show ?thesis
    using r a wf bi unfolding l by (auto simp: cl_add_def cl_remove_def cl_toggle_def)
qed

lemma elem_wf_class_update:
  "elem_wf b e \<Longrightarrow> tokens_wf l \<Longrightarrow> elem_wf b (e\<lparr>classList := l\<rparr>)"
  by (simp add: elem_wf_def)

text \<open>
  Every event changes an element of an invariant page at most in its class list, and
  only by \<open>DOMTokenList\<close> operations on \<open>favorite\<close> and \<open>hidden\<close>.
\<close>

lemma dispatch_class_lists:
  assumes inv: "app_inv ds s" and d: "distinct (map book_id ds)"
  shows "\<exists>es es'. list_elems s = Some es \<and> list_elems (fst (dispatch ds s e)) = Some es' \<and>
           length es' = length es \<and>
           (\<forall>k < length es. \<exists>l. es' ! k = (es ! k)\<lparr>classList := l\<rparr> \<and>
                               (tokens_wf (classList (es ! k)) \<longrightarrow> tokens_wf l))"
proof -
  obtain es cs where es: "list_elems s = Some es" "form_elems s = Some cs" "length es = length ds"
      "\<forall>k < length es. data_id (es ! k) = number_to_string (book_id (ds ! k))" "dblclick_bound s"
    using inv unfolding app_inv_iff by blast
  have keep: "\<forall>k < length es. \<exists>l. es ! k = (es ! k)\<lparr>classList := l\<rparr> \<and>
                 (tokens_wf (classList (es ! k)) \<longrightarrow> tokens_wf l)"
  proof (intro allI impI)
    fix k
    show "\<exists>l. es ! k = (es ! k)\<lparr>classList := l\<rparr> \<and> (tokens_wf (classList (es ! k)) \<longrightarrow> tokens_wf l)"
      by (rule exI [of _ "classList (es ! k)"]) simp
  qed
  show ?thesis
  proof (cases e)
    case (DblClick p)
    show ?thesis
    proof (cases "\<exists>i. p = List_child i \<and> i < length es \<and> ''book__image'' \<in> set (classList (es ! i))")
      case True
      then obtain i where i: "p = List_child i" "i < length es" "''book__image'' \<in> set (classList (es ! i))"
        by blast
      let ?es' = "es[i := (es ! i)\<lparr>classList := cl_toggle (classList (es ! i)) ''favorite''\<rparr>]"
      have "list_elems (fst (dispatch ds s e)) = Some ?es'"
        using DblClick i es(1,5) by (simp add: dblclick_handler_book_image)
      moreover have "\<forall>k < length es. \<exists>l. ?es' ! k = (es ! k)\<lparr>classList := l\<rparr> \<and>
                        (tokens_wf (classList (es ! k)) \<longrightarrow> tokens_wf l)"
        using i(2) tokens_wf_ops keep by (auto simp: nth_list_update)
      ultimately show ?thesis using es(1) by auto
    next
      case False
      then have "fst (dispatch ds s e) = s"
        using DblClick es(1) by (cases p) (auto simp: dblclick_handler_def dblclick_handler_other)
      then show ?thesis using es(1) keep by auto
    qed
  next
    case (Click i)
    show ?thesis
    proof (cases "i < length cs \<and> is_filter_checkbox (cs ! i)")
      case True
      let ?fs = "update_filters (filters s) (activate (cs ! i))"
      have "list_elems (fst (dispatch ds s e)) = Some (filter_all ds ?fs [0..<length es] es)"
        using Click True dispatch_click_eq [OF app_inv_shape [OF inv] es(1,2), of i] by (simp del: dispatch.simps)
      moreover have "\<forall>k < length es. \<exists>l. filter_all ds ?fs [0..<length es] es ! k = (es ! k)\<lparr>classList := l\<rparr> \<and>
                        (tokens_wf (classList (es ! k)) \<longrightarrow> tokens_wf l)"
        using filter_all_rendered [OF d es(3,4)] tokens_wf_ops by auto
      ultimately show ?thesis using es(1) by auto
    next
      case False
      then have "list_elems (fst (dispatch ds s e)) = Some es"
        using Click False es(1) dispatch_click_eq [OF app_inv_shape [OF inv] es(1,2), of i] by (auto simp del: dispatch.simps)
      then show ?thesis using es(1) keep by auto
    qed
  qed
qed

lemma elems_wf_dispatch:
  assumes "app_inv ds s" and "distinct (map book_id ds)" and wf: "elems_wf ds s"
  shows "elems_wf ds (fst (dispatch ds s e))"
proof -
  obtain es es' where e: "list_elems s = Some es" "list_elems (fst (dispatch ds s e)) = Some es'"
      "length es' = length es"
      "\<forall>k < length es. \<exists>l. es' ! k = (es ! k)\<lparr>classList := l\<rparr> \<and>
                        (tokens_wf (classList (es ! k)) \<longrightarrow> tokens_wf l)"
    using dispatch_class_lists [OF assms(1,2)] by blast
  have "list_all2 elem_wf ds es" using wf e(1) by (simp add: elems_wf_def)
  then have "list_all2 elem_wf ds es'"
    using e(3,4) elem_wf_class_update by (fastforce simp: list_all2_conv_all_nth elem_wf_def)
  then show ?thesis using e(2) by (simp add: elems_wf_def)
qed

lemma elems_wf_init:
  "page_ok page \<Longrightarrow> elems_wf ds (fst (new_BooksList ds page))"
  by (simp add: new_BooksList_page_ok elems_wf_def list_all2_conv_all_nth)

lemma reachable_elems_wf:
  assumes "page_ok page" and "distinct (map book_id ds)"
  shows "reachable ds page s \<Longrightarrow> elems_wf ds s"
proof (induction rule: reachable.induct)
  case init
  show ?case using assms(1) by (rule elems_wf_init)
next
  case (step s e)
  have "app_inv ds s" using reachable_app_inv [OF assms] step.hyps(1) .
  then show ?case using assms(2) step.IH by (rule elems_wf_dispatch)
qed

text \<open>A well-formed element with neither extra class is the rendered element itself.\<close>

lemma elem_wf_plain:
  assumes wf: "elem_wf b e" and f: "''favorite'' \<notin> set (classList e)" and h: "''hidden'' \<notin> set (classList e)"
  shows "e = template_book (book_context b)"
proof -
  have t: "tokens_wf (classList e)" and r: "e\<lparr>classList := [''book__image'']\<rparr> = template_book (book_context b)"
    using wf by (simp_all add: elem_wf_def)
  have "classList e = [''book__image'']"
  proof (cases "classList e")
    case (Cons a l)
    have sub: "set l \<subseteq> {''favorite'', ''hidden''}" using t Cons by (simp add: tokens_wf_def)
    have "''favorite'' \<notin> set l" "''hidden'' \<notin> set l" using f h Cons by simp_all
    with sub have "\<forall>x \<in> set l. False" by blast
    then have "l = []" by (cases l) auto
    then show ?thesis using Cons t by (simp add: tokens_wf_def)
  qed (use t in \<open>simp add: tokens_wf_def\<close>)
  then have "e = e\<lparr>classList := [''book__image'']\<rparr>" by simp
  then show ?thesis using r by simp
qed

section \<open>Properties of the book elements\<close>

text \<open>
  C11: in every state reachable from the served page, each book's element is the element
  the template rendered for it (its \<open>data-id\<close>, its rating bar) with a class list
  that starts with \<open>book__image\<close>, repeats no class, and holds nothing else than
  \<open>favorite\<close> and \<open>hidden\<close>.
\<close>

theorem reachable_elements_wf:
  assumes "page_ok page" and "distinct (map book_id ds)" and "reachable ds page s"
  shows "\<exists>es. list_elems s = Some es \<and> length es = length ds \<and>
           (\<forall>k < length ds. elem_wf (ds ! k) (es ! k))"
  using reachable_elems_wf [OF assms(1,2) assms(3)]
  by (auto simp: elems_wf_def list_all2_conv_all_nth split: option.splits)

theorem reachable_elements_wf_witness:
  "page_ok served_page \<and> distinct (map book_id sample_books) \<and>
   reachable sample_books served_page
     (fst (dispatch sample_books (fst (new_BooksList sample_books served_page)) (DblClick (List_child 0)))) \<and>
   (\<exists>es. list_elems (fst (dispatch sample_books (fst (new_BooksList sample_books served_page))
            (DblClick (List_child 0)))) = Some es \<and> length es = 3)"
proof -
  let ?s = "fst (dispatch sample_books (fst (new_BooksList sample_books served_page)) (DblClick (List_child 0)))"
  note h = served_page_ok
  have r: "reachable sample_books served_page ?s" by (rule reachable.step [OF reachable.init])
  show ?thesis using reachable_elements_wf [OF h r] h r by (auto simp: sample_books_def)
qed

end
