(* ===== verification/Boundary.thy ===== *)
theory Boundary
  imports BooksList
begin

text \<open>
  The page beyond the inputs the main invariant assumes. \<open>BooksList\<close> proves its
  invariant for a data source with distinct identifiers, served with no filter box
  checked. Here neither is assumed: the data source may repeat an identifier (the
  script finds a book by \<open>dataSource.books.find(item => item.id === bookId)\<close>, so an
  element always resolves to the first book with its identifier), and the form may come
  with boxes already checked (a browser restores the state of form controls when the
  page is reloaded, while the constructor starts with an empty filter list). What
  still holds is a visibility invariant stated through the first book with each
  identifier; what breaks is the favourite list, on every data source with a repeated
  identifier. Last, a page served without the
  filter form: construction fails half-way, and the page runs on with favourites only.
\<close>

definition vis_inv :: "book list \<Rightarrow> app \<Rightarrow> bool" where
  "vis_inv ds s \<longleftrightarrow> page_shape ds s \<and>
     (case list_elems s of
        None \<Rightarrow> False
      | Some es \<Rightarrow> \<forall>k < length es. \<exists>b. find (\<lambda>b. book_id b = book_id (ds ! k)) ds = Some b \<and>
                     (''hidden'' \<in> set (classList (es ! k)) \<longleftrightarrow> \<not> shown (filters s) b))"

text \<open>Two books sharing the identifier 1, the first with the \<open>horror\<close> tag set.\<close>

definition dup_books :: "book list" where
  "dup_books =
     [\<lparr>book_id = 1, rating = 8, details = Some [''horror'' \<mapsto> True]\<rparr>,
      \<lparr>book_id = 1, rating = 5, details = None\<rparr>]"

text \<open>The served page after a reload that kept the \<open>horror\<close> box checked.\<close>

definition reload_page :: app where
  "reload_page = served_page\<lparr>form_elems := Some [filter_box ''horror'' True, filter_box ''adults'' False]\<rparr>"

text \<open>
  A page served without the \<open>.filters\<close> form: construction throws in \<open>initActions\<close>
  after the double-click listener is attached. What its states keep: no filter and no
  hidden book, one rendered element per book, and favourites in agreement with the
  \<open>favorite\<close> classes.
\<close>

definition formless_inv :: "book list \<Rightarrow> app \<Rightarrow> bool" where
  "formless_inv ds s \<longleftrightarrow> form_elems s = None \<and> filters s = [] \<and> dblclick_bound s \<and>
     (case list_elems s of
        None \<Rightarrow> False
      | Some es \<Rightarrow> length es = length ds \<and>
          (\<forall>k < length es. data_id (es ! k) = number_to_string (book_id (ds ! k)) \<and>
             ''book__image'' \<in> set (classList (es ! k)) \<and> ''hidden'' \<notin> set (classList (es ! k))) \<and>
          fav_coherent (favoriteBooks s) es)"

definition formless_page :: app where
  "formless_page = served_page\<lparr>form_elems := None\<rparr>"

section \<open>Lemmas\<close>

lemma filter_all_rendered_any:
  assumes len: "length es = length ds"
    and ids: "\<forall>k < length es. data_id (es ! k) = number_to_string (book_id (ds ! k))"
    and k: "k < length es"
  shows "\<exists>b. find (\<lambda>b. book_id b = book_id (ds ! k)) ds = Some b \<and>
           filter_all ds fs [0..<length es] es ! k =
           (es ! k)\<lparr>classList := (if shown fs b then cl_remove (classList (es ! k)) ''hidden''
                                   else cl_add (classList (es ! k)) ''hidden'')\<rparr>"
proof -
  obtain b where b: "find (\<lambda>b. book_id b = book_id (ds ! k)) ds = Some b"
    "lookup_book ds (es ! k) = Some b"
    using lookup_book_rendered_any [of k ds "es ! k"] len ids k by auto
  then show ?thesis using nth_filter_all [of "[0..<length es]" k es ds fs] k
    by (simp add: filter_one_ok)
qed

text \<open>A double click changes at most one element's \<open>favorite\<close> class and the favourite list.\<close>

lemma dblclick_handler_cases:
  "fst (dblclick_handler p s) = s \<or>
   (\<exists>i es. list_elems s = Some es \<and> i < length es \<and>
      fst (dblclick_handler p s) =
        s\<lparr>list_elems := Some (es[i := (es ! i)\<lparr>classList := cl_toggle (classList (es ! i)) ''favorite''\<rparr>]),
          favoriteBooks := toggle_favorite (favoriteBooks s) (data_id (es ! i))\<rparr>)"
  by (cases p) (auto simp: dblclick_handler_def Let_def split: option.splits)

lemma vis_inv_dblclick:
  assumes inv: "vis_inv ds s"
  shows "vis_inv ds (fst (dispatch ds s (DblClick p)))"
proof -
  have "vis_inv ds (fst (dblclick_handler p s))"
    using dblclick_handler_cases [of p s]
  proof
    assume "fst (dblclick_handler p s) = s"
    then show ?thesis using inv by simp
  next
    assume "\<exists>i es. list_elems s = Some es \<and> i < length es \<and>
      fst (dblclick_handler p s) =
        s\<lparr>list_elems := Some (es[i := (es ! i)\<lparr>classList := cl_toggle (classList (es ! i)) ''favorite''\<rparr>]),
          favoriteBooks := toggle_favorite (favoriteBooks s) (data_id (es ! i))\<rparr>"
    then obtain i es where i: "list_elems s = Some es" "i < length es" and
      t: "fst (dblclick_handler p s) =
        s\<lparr>list_elems := Some (es[i := (es ! i)\<lparr>classList := cl_toggle (classList (es ! i)) ''favorite''\<rparr>]),
          favoriteBooks := toggle_favorite (favoriteBooks s) (data_id (es ! i))\<rparr>"
      by blast
    show ?thesis
      using inv i unfolding t by (auto simp: vis_inv_def page_shape_def nth_list_update split: option.splits)
  qed
  then show ?thesis using inv by simp
qed

lemma vis_inv_click:
  assumes inv: "vis_inv ds s"
  shows "vis_inv ds (fst (dispatch ds s (Click i)))"
proof -
  obtain es cs where es: "list_elems s = Some es" "form_elems s = Some cs" and sh: "page_shape ds s"
    using inv by (auto simp: vis_inv_def page_shape_def split: option.splits)
  have h: "length es = length ds" "\<forall>k < length es. data_id (es ! k) = number_to_string (book_id (ds ! k))"
    using sh es by (auto simp: page_shape_def)
  note eq = dispatch_click_eq [OF sh es, of i]
  show ?thesis
  proof (cases "i < length cs \<and> is_filter_checkbox (cs ! i)")
    case True
    let ?fs = "update_filters (filters s) (activate (cs ! i))"
    have "\<forall>k < length es. \<exists>b. find (\<lambda>b. book_id b = book_id (ds ! k)) ds = Some b \<and>
        data_id (filter_all ds ?fs [0..<length es] es ! k) = data_id (es ! k) \<and>
        (''hidden'' \<in> set (classList (filter_all ds ?fs [0..<length es] es ! k)) \<longleftrightarrow> \<not> shown ?fs b)"
    proof (intro allI impI)
      fix k assume k: "k < length es"
      obtain b where b: "find (\<lambda>b. book_id b = book_id (ds ! k)) ds = Some b" and
        f: "filter_all ds ?fs [0..<length es] es ! k =
              (es ! k)\<lparr>classList := (if shown ?fs b then cl_remove (classList (es ! k)) ''hidden''
                                      else cl_add (classList (es ! k)) ''hidden'')\<rparr>"
        using filter_all_rendered_any [OF h k] by blast
      show "\<exists>b. find (\<lambda>b. book_id b = book_id (ds ! k)) ds = Some b \<and>
          data_id (filter_all ds ?fs [0..<length es] es ! k) = data_id (es ! k) \<and>
          (''hidden'' \<in> set (classList (filter_all ds ?fs [0..<length es] es ! k)) \<longleftrightarrow> \<not> shown ?fs b)"
        using b f by (intro exI [of _ b]) simp
    qed
    then show ?thesis
      using eq True sh es by (auto simp: vis_inv_def page_shape_def simp del: dispatch.simps)
  next
    case False
    then show ?thesis
      using eq inv es by (auto simp: vis_inv_def page_shape_def simp del: dispatch.simps)
  qed
qed

lemma vis_inv_dispatch: "vis_inv ds s \<Longrightarrow> vis_inv ds (fst (dispatch ds s e))"
  by (cases e) (simp_all only: vis_inv_dblclick vis_inv_click)

lemma vis_inv_init:
  assumes "template_present page" and "list_elems page = Some []" and "form_elems page \<noteq> None"
  shows "vis_inv ds (fst (new_BooksList ds page))"
proof -
  have "\<And>k. k < length ds \<Longrightarrow> find (\<lambda>b. book_id b = book_id (ds ! k)) ds \<noteq> None"
    using lookup_book_rendered_any [of _ ds "template_book (book_context (ds ! _))"] by simp
  then show ?thesis using assms
    by (auto simp: new_BooksList_loaded vis_inv_def page_shape_def shown_def split: option.splits)
qed

lemma reachable_vis_inv:
  assumes "template_present page" and "list_elems page = Some []" and "form_elems page \<noteq> None"
  shows "reachable ds page s \<Longrightarrow> vis_inv ds s"
proof (induction rule: reachable.induct)
  case init
  show ?case using assms by (rule vis_inv_init)
next
  case (step s e)
  from step.IH show ?case by (rule vis_inv_dispatch)
qed

lemma reload_page_loaded:
  "template_present reload_page" "list_elems reload_page = Some []" "form_elems reload_page \<noteq> None"
  by (simp_all add: reload_page_def served_page_def)

section \<open>Properties on arbitrary data sources and forms\<close>

text \<open>
  C13: on any data source, identifiers repeated or not, and whatever boxes the form shows
  checked when the page loads, every reachable state hides a book's element exactly when
  the first book of the data source with that element's identifier is not shown by the
  current filter list.
\<close>

theorem reachable_visibility_any_ids:
  assumes "template_present page" and "list_elems page = Some []" and "form_elems page \<noteq> None"
    and "reachable ds page s"
  shows "\<exists>es. list_elems s = Some es \<and> length es = length ds \<and>
           (\<forall>k < length ds. \<exists>b. find (\<lambda>b. book_id b = book_id (ds ! k)) ds = Some b \<and>
              (''hidden'' \<in> set (classList (es ! k)) \<longleftrightarrow> \<not> shown (filters s) b))"
  using reachable_vis_inv [OF assms(1-3) assms(4)]
  by (auto simp: vis_inv_def page_shape_def split: option.splits)

theorem reachable_visibility_any_ids_witness:
  "template_present reload_page \<and> list_elems reload_page = Some [] \<and> form_elems reload_page \<noteq> None \<and>
   reachable dup_books reload_page (fst (new_BooksList dup_books reload_page)) \<and>
   (\<exists>es. list_elems (fst (new_BooksList dup_books reload_page)) = Some es \<and> length es = 2)"
proof -
  have r: "reachable dup_books reload_page (fst (new_BooksList dup_books reload_page))"
    by (rule reachable.init)
  show ?thesis
    using reachable_visibility_any_ids [OF reload_page_loaded r] reload_page_loaded r
    by (auto simp: dup_books_def)
qed

text \<open>
  C25: the distinct identifiers assumed by the favourite invariant cannot be dropped. On
  any data source where two books share an identifier, double-clicking the element of
  the one and then the element of the other right after loading marks both elements
  \<open>favorite\<close> while the favourite list ends empty: the second click finds the
  identifier the first one pushed and splices it out again.
\<close>

theorem duplicate_ids_break_favorites:
  assumes "template_present page" and "list_elems page = Some []" and "form_elems page \<noteq> None"
    and "i < length ds" and "j < length ds" and "i \<noteq> j" and "book_id (ds ! i) = book_id (ds ! j)"
  shows "favoriteBooks (fst (dispatch ds (fst (dispatch ds (fst (new_BooksList ds page))
            (DblClick (List_child i)))) (DblClick (List_child j)))) = [] \<and>
         (\<exists>es. list_elems (fst (dispatch ds (fst (dispatch ds (fst (new_BooksList ds page))
            (DblClick (List_child i)))) (DblClick (List_child j)))) = Some es \<and>
            ''favorite'' \<in> set (classList (es ! i)) \<and> ''favorite'' \<in> set (classList (es ! j)))"
proof -
  let ?es0 = "map (\<lambda>b. template_book (book_context b)) ds"
  let ?s0 = "fst (new_BooksList ds page)"
  let ?x = "number_to_string (book_id (ds ! i))"
  let ?es1 = "?es0[i := (?es0 ! i)\<lparr>classList := cl_toggle (classList (?es0 ! i)) ''favorite''\<rparr>]"
  let ?s1 = "fst (dispatch ds ?s0 (DblClick (List_child i)))"
  let ?es2 = "?es1[j := (?es1 ! j)\<lparr>classList := cl_toggle (classList (?es1 ! j)) ''favorite''\<rparr>]"
  have s0: "list_elems ?s0 = Some ?es0" "favoriteBooks ?s0 = []" "dblclick_bound ?s0"
    using new_BooksList_loaded [OF assms(1-3), of ds] by simp_all
  have s1: "list_elems ?s1 = Some ?es1" "favoriteBooks ?s1 = [?x]" "dblclick_bound ?s1"
    using s0 assms(4) by (simp_all add: dblclick_handler_book_image toggle_favorite_eq)
  have j1: "?es1 ! j = ?es0 ! j" using assms(6) by simp
  have d: "dispatch ds ?s1 (DblClick (List_child j)) = dblclick_handler (List_child j) ?s1"
    using s1(3) by simp
  have bj: "j < length ?es1" "''book__image'' \<in> set (classList (?es1 ! j))"
    using assms(5) j1 by simp_all
  have x: "data_id (?es1 ! j) = ?x" using assms(5,7) j1 by simp
  have s2: "list_elems (fst (dispatch ds ?s1 (DblClick (List_child j)))) = Some ?es2"
      "favoriteBooks (fst (dispatch ds ?s1 (DblClick (List_child j)))) = []"
    unfolding d dblclick_handler_book_image [OF s1(1) bj] using s1(2) x
    by (simp_all add: toggle_favorite_eq)
  have "''favorite'' \<in> set (classList (?es2 ! i)) \<and> ''favorite'' \<in> set (classList (?es2 ! j))"
    using assms(4-6) by (simp add: cl_toggle_def)
  then show ?thesis using s2 by blast
qed

theorem duplicate_ids_break_favorites_witness:
  "template_present served_page \<and> list_elems served_page = Some [] \<and> form_elems served_page \<noteq> None \<and>
   0 < length dup_books \<and> 1 < length dup_books \<and> (0::nat) \<noteq> 1 \<and>
   book_id (dup_books ! 0) = book_id (dup_books ! 1) \<and>
   favoriteBooks (fst (dispatch dup_books (fst (dispatch dup_books (fst (new_BooksList dup_books served_page))
     (DblClick (List_child 0)))) (DblClick (List_child 1)))) = []"
proof -
  have h: "template_present served_page" "list_elems served_page = Some []" "form_elems served_page \<noteq> None"
    "0 < length dup_books" "1 < length dup_books" "(0::nat) \<noteq> 1" "book_id (dup_books ! 0) = book_id (dup_books ! 1)"
    by (simp_all add: served_page_def dup_books_def)
  show ?thesis using duplicate_ids_break_favorites [OF h] h by blast
qed

section \<open>A page without the filter form\<close>

lemma new_BooksList_no_form:
  assumes "template_present page" and "list_elems page = Some []" and "form_elems page = None"
  shows "new_BooksList ds page =
     (page\<lparr>favoriteBooks := [], filters := [],
           list_elems := Some (map (\<lambda>b. template_book (book_context b)) ds),
           dom_bookImage := [0..<length ds], dblclick_bound := True\<rparr>, Some Null_filters_form)"
  using assms by (simp add: new_BooksList_def renderBooks_def render_loop_Some getElements_def
      initActions_eq book_image_indices_all)

lemma dispatch_click_no_form:
  assumes f: "form_elems s = None"
  shows "dispatch ds s (Click i) = (s, None)"
proof -
  have u: "s\<lparr>form_elems := None\<rparr> = s" using f by (cases s) simp
  show ?thesis using f by (simp add: u click_handler_def)
qed

lemma formless_inv_dispatch:
  assumes inv: "formless_inv ds s" and d: "distinct (map book_id ds)"
  shows "formless_inv ds (fst (dispatch ds s e))"
proof (cases e)
  case (Click i)
  then show ?thesis using inv dispatch_click_no_form [of s ds i] by (simp add: formless_inv_def)
next
  case (DblClick p)
  obtain es where es: "list_elems s = Some es" "length es = length ds"
      "\<forall>k < length es. data_id (es ! k) = number_to_string (book_id (ds ! k)) \<and>
         ''book__image'' \<in> set (classList (es ! k)) \<and> ''hidden'' \<notin> set (classList (es ! k))"
      "fav_coherent (favoriteBooks s) es" and fb: "form_elems s = None" "filters s = []" "dblclick_bound s"
    using inv by (auto simp: formless_inv_def split: option.splits)
  have u: "ids_unique es" using ids_unique_rendered [OF d es(2)] es(3) by blast
  obtain es' where e: "list_elems (fst (dblclick_handler p s)) = Some es'" "length es' = length es"
      "\<forall>k < length es. data_id (es' ! k) = data_id (es ! k) \<and> ''book__image'' \<in> set (classList (es' ! k)) \<and>
        (''hidden'' \<in> set (classList (es' ! k)) \<longleftrightarrow> ''hidden'' \<in> set (classList (es ! k)))"
      "fav_coherent (favoriteBooks (fst (dblclick_handler p s))) es'"
      "(fst (dblclick_handler p s))\<lparr>list_elems := list_elems s, favoriteBooks := favoriteBooks s\<rparr> = s"
    using dblclick_elems [OF es(1) _ es(4) u, of p] es(3) by blast
  let ?t = "fst (dblclick_handler p s)"
  have fr: "form_elems ?t = None" "filters ?t = []" "dblclick_bound ?t"
    using arg_cong [OF e(5), of form_elems] arg_cong [OF e(5), of filters]
      arg_cong [OF e(5), of dblclick_bound] fb by simp_all
  show ?thesis using DblClick fb(3) e(1-4) fr es(2,3) by (auto simp: formless_inv_def)
qed

lemma reachable_formless_inv:
  assumes "template_present page" and "list_elems page = Some []" and "form_elems page = None"
    and d: "distinct (map book_id ds)"
  shows "reachable ds page s \<Longrightarrow> formless_inv ds s"
proof (induction rule: reachable.induct)
  case init
  have "fav_coherent [] (map (\<lambda>b. template_book (book_context b)) ds)"
    by (simp add: fav_coherent_def)
  then show ?case using assms(1-3) by (simp add: new_BooksList_no_form formless_inv_def)
next
  case (step s e)
  from step.IH d show ?case by (rule formless_inv_dispatch)
qed

text \<open>
  C14: on a page served without the filter form, construction throws the \<open>TypeError\<close>
  of \<open>initActions\<close> after attaching the double-click listener; from then on filtering
  is dead (every click changes nothing and raises nothing, the filter list stays empty,
  no book is ever hidden) while favourites keep working: in every reachable state the
  favourite list is duplicate-free and holds exactly the identifiers of the elements
  marked \<open>favorite\<close>.
\<close>

theorem no_form_degraded:
  assumes "template_present page" and "list_elems page = Some []" and "form_elems page = None"
    and "distinct (map book_id ds)" and "reachable ds page s"
  shows "snd (new_BooksList ds page) = Some Null_filters_form \<and>
         dispatch ds s (Click i) = (s, None) \<and> filters s = [] \<and>
         (\<exists>es. list_elems s = Some es \<and> length es = length ds \<and>
            (\<forall>k < length es. ''hidden'' \<notin> set (classList (es ! k))) \<and>
            distinct (favoriteBooks s) \<and>
            set (favoriteBooks s) = {data_id (es ! k) | k. k < length es \<and> ''favorite'' \<in> set (classList (es ! k))})"
proof -
  have inv: "formless_inv ds s" using reachable_formless_inv [OF assms(1-4) assms(5)] .
  then obtain es where es: "list_elems s = Some es" "length es = length ds"
      "\<forall>k < length es. ''book__image'' \<in> set (classList (es ! k)) \<and> ''hidden'' \<notin> set (classList (es ! k))"
      "fav_coherent (favoriteBooks s) es" and f: "form_elems s = None" "filters s = []"
    by (auto simp: formless_inv_def split: option.splits)
  have "\<And>k x. (x = data_id (es ! k) \<and> k < length es \<and> ''book__image'' \<in> set (classList (es ! k))
                \<and> ''favorite'' \<in> set (classList (es ! k))) \<longleftrightarrow>
               (x = data_id (es ! k) \<and> k < length es \<and> ''favorite'' \<in> set (classList (es ! k)))"
    using es(3) by auto
  then have "distinct (favoriteBooks s) \<and>
      set (favoriteBooks s) = {data_id (es ! k) | k. k < length es \<and> ''favorite'' \<in> set (classList (es ! k))}"
    using es(4) by (simp add: fav_coherent_def)
  then show ?thesis
    using es f assms(1-3) dispatch_click_no_form [OF f(1)] by (simp add: new_BooksList_no_form)
qed

theorem no_form_degraded_witness:
  "template_present formless_page \<and> list_elems formless_page = Some [] \<and> form_elems formless_page = None \<and>
   distinct (map book_id sample_books) \<and>
   reachable sample_books formless_page (fst (new_BooksList sample_books formless_page)) \<and>
   filters (fst (new_BooksList sample_books formless_page)) = []"
proof -
  have h: "template_present formless_page" "list_elems formless_page = Some []" "form_elems formless_page = None"
    by (simp_all add: formless_page_def served_page_def)
  have r: "reachable sample_books formless_page (fst (new_BooksList sample_books formless_page))"
    by (rule reachable.init)
  show ?thesis using no_form_degraded [OF h served_page_ok(2) r, of 0] h r served_page_ok(2) by blast
qed

end
