(* ===== verification/Spec2Isabelle.thy ===== *)
theory Spec2Isabelle
  imports Page_Spec Item_State Boundary
begin

text \<open>
  \<^bold>\<open>BooksApp in Isabelle/HOL.\<close> The program is one browser script,
  \<open>src/src/js/script.js\<close>: a class \<open>BooksList\<close> that renders the books of a static
  data source (\<open>dataSource.books\<close>) through a Handlebars template into the
  \<open>.books-list\<close> container, colours each book's rating bar, lets the user mark
  favourites by double-clicking a cover and hides the books that match none of the
  checked filter boxes of the \<open>.filters\<close> form. This library models all of the script's
  state-changing code as HOL functions over an explicit page state and proves what
  makes it correct.

  \<^bold>\<open>Parts and theories.\<close>
  \<^item> \<open>Prelude\<close>: the run-time errors (\<open>js_error\<close>, every exception is a
    \<open>TypeError\<close> on \<open>null\<close>/\<open>undefined\<close>), the result of a statement sequence that may
    throw (\<open>js_result\<close>, the state reached plus the uncaught error, since a browser keeps
    the mutations made before an exception) with its sequencing \<open>js_then\<close>, and
    \<open>Array.prototype.indexOf\<close>/\<open>splice\<close>/\<open>push\<close> (\<open>index_of\<close>, \<open>array_splice\<close>,
    \<open>push\<close>) with the lemma that \<open>indexOf\<close>-then-\<open>splice\<close> is \<open>remove1\<close>.
  \<^item> \<open>Rating\<close>: \<open>ratingSettings\<close>, \<open>getRatingColor\<close> (lines 26-31, 72-82) and the
    width \<open>rating / 10 * 100\<close> of \<open>renderBooks\<close>; the tiers form a \<open>linorder\<close>.
  \<^item> \<open>Js_Runtime\<close>: \<open>parseInt\<close> (line 91) as ECMAScript defines it for one
    argument, and \<open>Number::toString\<close> on integers (how the template prints
    \<open>{{id}}\<close>), with the round trip \<open>parseInt (toString i) = i\<close>.
  \<^item> \<open>Dom\<close>: the configuration objects \<open>select\<close> and \<open>classNames\<close>, elements with a
    \<open>classList\<close> (DOMTokenList \<open>add\<close>/\<open>remove\<close>/\<open>toggle\<close>/\<open>contains\<close>), form
    controls, and the record \<open>app\<close>: the instance fields \<open>favoriteBooks\<close>, \<open>filters\<close>,
    \<open>dom.bookImage\<close> (indices into the list's children), the list's children and the
    form's controls as stores, which of the template/list/form exist, and which
    listeners are attached.
  \<^item> \<open>Render\<close>: the book record, \<open>renderBooks\<close> (its \<open>for\<close> loop as \<open>render_loop\<close>,
    its template context as \<open>book_context\<close>) and \<open>getElements\<close>.
  \<^item> \<open>Visibility\<close>: \<open>filterBooks\<close> (lines 84-108): \<open>lookup_book\<close> (\<open>parseInt\<close> then
    \<open>find\<close>), \<open>book_matches\<close>, the callback \<open>filter_one\<close> and the \<open>forEach\<close> loop
    \<open>forEach_filter\<close>, which stops at the first \<open>TypeError\<close>; \<open>shown\<close> is the
    specification's visibility rule (section 4.2), written independently of the code.
  \<^item> \<open>Favorites\<close>: the \<open>dblclick\<close> listener (lines 115-135) as \<open>dblclick_handler\<close>,
    its list update as \<open>toggle_favorite\<close>.
  \<^item> \<open>Filters_Form\<close>: the \<open>click\<close> listener on the form (lines 138-161) as
    \<open>click_handler\<close>, its list update as \<open>update_filters\<close>, and the browser's
    checkbox activation (\<open>activate\<close>), which runs before the listener.
  \<^item> \<open>BooksList\<close>: the constructor \<open>new_BooksList\<close> (lines 35-42, composing
    \<open>renderBooks\<close>, \<open>getElements\<close>, \<open>initActions\<close> with \<open>js_then\<close>), \<open>initActions\<close>
    (lines 110-162, which listeners get attached), the event type and \<open>dispatch\<close>,
    \<open>run\<close> over an event list, and \<open>reachable\<close>, the inductive set of page states
    after construction and any sequence of events.
  \<^item> \<open>Page_Spec\<close>: the specification's view of the page, written without the code,
    and the refinement proofs (see below).
  \<^item> \<open>Item_State\<close>: the book elements one at a time: their well-formedness
    (\<open>elem_wf\<close>), the page's type invariant.
  \<^item> \<open>Boundary\<close>: the page on inputs the main invariant excludes: a data source
    with a repeated identifier and a form loaded with boxes already checked. A
    visibility invariant (\<open>vis_inv\<close>, over the weaker \<open>page_shape\<close> of
    \<open>BooksList\<close>) holds there, through the first book with each identifier, while
    the favourite list breaks on every repeated identifier (\<open>dup_books\<close> and
    \<open>reload_page\<close> are the witnesses' pages); and a page without the filter form
    (\<open>formless_inv\<close>, \<open>formless_page\<close>).
  \<^item> This theory: the properties that combine the others (liveness).

  \<^bold>\<open>What is proved.\<close> In every state reachable from the page as served (template
  and empty container present, no filter box checked) with a data source of distinct
  ids: every book element is hidden exactly when the specification's rule says it is
  not shown; the favourite list is duplicate-free and holds exactly the identifiers of
  the elements marked \<open>favorite\<close>; the filter list holds the values of the checked
  filter boxes (as a multiset); and over any run of events the only exception is the
  one of a double click on a target without \<open>offsetParent\<close>, reported exactly once
  per such event (\<open>load_run_errors\<close>, by \<open>run_error_trace\<close>). The proof is an
  invariant (\<open>app_inv\<close>) kept by construction and by each event, by rule induction on
  \<open>reachable\<close>; the component lemmas it rests on are stated as properties of their
  own: \<open>filterBooks\<close>'s result and its exact error condition, the favourite toggle as
  a symmetric difference, the filter list's synchronisation with the form, rendering
  one element per book in order, and the id round trip from the template to
  \<open>filterBooks\<close>. For the rating bar: \<open>getRatingColor\<close> equals the specification's
  four-tier step function except at 6, where it is \<open>undefined\<close>, and the tier is
  monotone. Toggling a favourite twice restores the list exactly when the identifier was
  absent, and otherwise only as a multiset (the identifier moves to the end); toggling a
  filter box twice restores the filter list in the same sense.

  \<^bold>\<open>Refinement.\<close> \<open>Page_Spec\<close> states the specification's view of the page
  (\<open>abs_page\<close>: the favourite identifiers as a set, the active filter tags as a
  multiset, the hidden books as a set of positions) and its actions (\<open>abs_step\<close>:
  toggle a favourite, add or remove a filter tag and recompute the hidden books by
  \<open>shown_set\<close>). \<open>abs_of\<close> abstracts a page state and \<open>abs_event_of\<close> maps a
  concrete event to the action it performs. \<open>dispatch_refines_spec\<close> is a forward
  simulation: construction yields the abstract initial state \<open>abs_init\<close>, and each
  event from a reachable state commutes with the abstraction; \<open>load_run_refines_spec\<close>
  lifts it to whole runs (\<open>abs_run\<close> over \<open>abs_trace\<close>). A double click and a form
  click commute in the abstract view (\<open>dblclick_click_commute\<close>); on the page
  itself the order of the classes an element gains follows the order of the events,
  since a \<open>DOMTokenList\<close> keeps insertion order (\<open>event_order_class_list\<close>). In \<open>Item_State\<close> every element stays
  the template's element for its book, its class list a repetition-free
  \<open>book__image\<close> followed by some of \<open>favorite\<close> and \<open>hidden\<close>
  (\<open>reachable_elements_wf\<close>, the page's type invariant).

  \<^bold>\<open>Liveness.\<close> From every reachable state some events, raising no exception, bring
  the page back to how it was loaded (\<open>reset_always_possible\<close>). The proof picks one
  event per favourite and per active filter tag (\<open>fav_event_exists\<close>,
  \<open>filter_event_exists\<close>) and goes by induction on their number (\<open>reset_exists\<close>).

  \<^bold>\<open>Boundary inputs.\<close> Without distinct identifiers or an unchecked form, every
  element is still hidden exactly when the first book with its identifier is not shown
  by the filter list (\<open>reachable_visibility_any_ids\<close>): a later book with a
  repeated identifier is filtered by the earlier one's tags, and a box restored checked
  by a reload counts for nothing until it is clicked, since only the filter list
  decides. On every data source with a repeated identifier the favourite list breaks:
  double-clicking two elements with one identifier marks both while the list ends empty
  (\<open>duplicate_ids_break_favorites\<close>), so the distinct identifiers of the main
  invariant are needed. Without the
  filter form the constructor throws after attaching the double-click listener, and the
  page then keeps favourites exact while every click is inert and nothing is ever
  hidden (\<open>no_form_degraded\<close>).

  \<^bold>\<open>Modelling choices.\<close> No loop of the script can run forever: each walks a finite
  list (the \<open>for ... of\<close> over the books, \<open>forEach\<close> over the cached elements,
  \<open>find\<close>, \<open>some\<close>), so every definition that models script code is a terminating
  \<open>fun\<close> or \<open>definition\<close> by structural recursion, and no fuel is needed; the
  builtins \<open>indexOf\<close> and \<open>find\<close> are modelled by their results (first match), not
  by the standard's counting loops. JavaScript numbers are \<open>int\<close> for ids and
  \<open>real\<close> for ratings: IEEE rounding, \<open>NaN\<close> ratings and ids beyond 2^53 are not
  modelled. The rounding matters for the bar width only: the browser computes
  \<open>(0.7 / 10) * 100\<close> as \<open>6.999999999999999\<close>, where \<open>ratingWidth\<close> gives 7, so
  no theorem states the width's value; it is passed on to the template. Strings are byte lists, so \<open>parseInt\<close> skips ASCII white space only.
  The data source and the Handlebars template are not under \<open>src/\<close>; the book record
  and the template's output (one \<open>.book__image\<close> element per book with
  \<open>data-id="{{id}}"\<close> and the rating bar) are modelled from the specification. The
  page is assumed to hold no \<open>.book__image\<close> element outside the list, so an
  \<open>offsetParent\<close> outside the list is inert. Layout (which element is an
  \<open>offsetParent\<close>), \<open>event.preventDefault()\<close> and \<open>console.log(app)\<close> have no effect
  on the modelled state and are not modelled. The script's last two statements,
  \<open>const app = new BooksList(); console.log(app);\<close>, are the construction itself
  (\<open>new_BooksList\<close> on the page, whose resulting states every theorem ranges over)
  and a console output; they need no definition of their own.
\<close>

section \<open>Liveness\<close>

text \<open>
  C10: from every state reachable from the served page the user can always get the page
  back to how it was loaded: some sequence of events, raising no exception, leads to a
  state whose book list is exactly the rendered one (no \<open>favorite\<close>, no \<open>hidden\<close>
  class), with no favourite, no filter and no filter box checked.
\<close>

theorem reset_always_possible:
  assumes "page_ok page" and "distinct (map book_id ds)" and "reachable ds page s"
  shows "\<exists>evs cs. snd (run ds s evs) = [] \<and>
           list_elems (fst (run ds s evs)) = list_elems (fst (new_BooksList ds page)) \<and>
           favoriteBooks (fst (run ds s evs)) = [] \<and> filters (fst (run ds s evs)) = [] \<and>
           form_elems (fst (run ds s evs)) = Some cs \<and> checked_filters cs = []"
proof -
  obtain evs where r: "abs_of ds (fst (run ds s evs)) = abs_init" "snd (run ds s evs) = []"
    using reset_exists [OF assms(1,2) assms(3)] by blast
  let ?t = "fst (run ds s evs)"
  have rt: "reachable ds page ?t" using reachable_run [OF assms(3)] .
  have wf: "elems_wf ds ?t" using reachable_elems_wf [OF assms(1,2) rt] .
  have favs: "favoriteBooks ?t = []" and fs: "filters ?t = []"
    using abs_of_fields [OF r(1)] by (simp_all add: abs_init_def)
  obtain es cs where es: "list_elems ?t = Some es" "form_elems ?t = Some cs" "length es = length ds"
      "\<forall>k < length es. ''hidden'' \<in> set (classList (es ! k)) \<longleftrightarrow> \<not> shown (filters ?t) (ds ! k)"
      "fav_coherent (favoriteBooks ?t) es" "mset (filters ?t) = mset (checked_filters cs)"
    using reachable_app_inv [OF assms(1,2) rt] unfolding app_inv_iff by blast
  have nofav: "{data_id (es ! k) | k. k < length es \<and> ''book__image'' \<in> set (classList (es ! k)) \<and>
                  ''favorite'' \<in> set (classList (es ! k))} = {}"
    using es(5) favs by (simp add: fav_coherent_def)
  have plain: "es ! k = template_book (book_context (ds ! k))" if k: "k < length es" for k
  proof -
    have wfk: "elem_wf (ds ! k) (es ! k)" using wf es(1,3) k by (simp add: elems_wf_def list_all2_conv_all_nth)
    then have "''book__image'' \<in> set (classList (es ! k))" by (cases "classList (es ! k)") (auto simp: elem_wf_def tokens_wf_def)
    then have "''favorite'' \<notin> set (classList (es ! k))" using nofav k by blast
    moreover have "''hidden'' \<notin> set (classList (es ! k))" using es(4) fs k by (simp add: shown_def)
    ultimately show ?thesis using elem_wf_plain [OF wfk] by blast
  qed
  have "es = map (\<lambda>b. template_book (book_context b)) ds"
    using es(3) plain by (simp add: list_eq_iff_nth_eq)
  moreover have "checked_filters cs = []" using es(6) fs by simp
  ultimately show ?thesis
    using r(2) es(1,2) favs fs by (intro exI [of _ evs] exI [of _ cs]) (simp add: new_BooksList_page_ok [OF assms(1)])
qed

theorem reset_always_possible_witness:
  "page_ok served_page \<and> distinct (map book_id sample_books) \<and>
   reachable sample_books served_page (fst (dispatch sample_books (fst (new_BooksList sample_books served_page)) (Click 0))) \<and>
   (\<exists>evs. snd (run sample_books (fst (dispatch sample_books (fst (new_BooksList sample_books served_page)) (Click 0))) evs) = [] \<and>
      filters (fst (run sample_books (fst (dispatch sample_books (fst (new_BooksList sample_books served_page)) (Click 0))) evs)) = [])"
proof -
  let ?s = "fst (dispatch sample_books (fst (new_BooksList sample_books served_page)) (Click 0))"
  note h = served_page_ok
  have r: "reachable sample_books served_page ?s" by (rule reachable.step [OF reachable.init])
  show ?thesis using reset_always_possible [OF h r] h r by blast
qed

end
